theory Spec2Isabelle
  imports Main
begin

section \<open>JavaScript values\<close>

text \<open>
  The testers handle values of TypeScript type \<open>any\<close>: schemas, examples, defaults,
  supplied parameter values, response bodies. They are modelled as trees. \<open>JUndefined\<close> is
  the value a read of an absent property gives, so an optional field of type \<open>any\<close> is a
  \<open>json\<close> whose absence is \<open>JUndefined\<close>. Numbers are restricted to the integers (status
  codes, example values); \<open>NaN\<close>, \<open>-0\<close> and fractions are outside the model. A string is
  the list of its code units, of which \<open>char\<close> covers those below 256.

  An object is a plain object: its prototype is \<open>Object.prototype\<close>, and it is written as
  the list of its own properties in enumeration order (integer keys first, ascending, then
  the other keys in the order of their creation), each key once. \<open>JFunction n\<close> is the
  built-in function named \<open>n\<close>; the testers meet functions only as the members every plain
  object inherits.
\<close>

datatype json =
    JUndefined
  | JNull
  | JBool bool
  | JNum int
  | JStr string
  | JArr "json list"
  | JObj "(string \<times> json) list"
  | JFunction string

text \<open>A thrown value: an \<open>Error\<close> instance with its message, or anything else.\<close>

datatype thrown = JsError string | NonError

text \<open>\<open>error instanceof Error ? error.message : 'Unknown error'\<close>\<close>

fun error_message :: "thrown \<Rightarrow> string" where
  "error_message (JsError m) = m"
| "error_message NonError = ''Unknown error''"

definition type_error :: thrown where
  "type_error = JsError ''TypeError''"

text \<open>Sequencing of two computations that may throw: a throw of the first propagates.\<close>

definition and_then :: "thrown + 'a \<Rightarrow> ('a \<Rightarrow> thrown + 'b) \<Rightarrow> thrown + 'b" where
  "and_then m f = (case m of Inl e \<Rightarrow> Inl e | Inr v \<Rightarrow> f v)"

text \<open>Truthiness, as \<open>!x\<close>, \<open>x || y\<close> and \<open>x && y\<close> test it.\<close>

fun truthy :: "json \<Rightarrow> bool" where
  "truthy JUndefined = False"
| "truthy JNull = False"
| "truthy (JBool b) = b"
| "truthy (JNum n) = (n \<noteq> 0)"
| "truthy (JStr s) = (s \<noteq> [])"
| "truthy (JArr xs) = True"
| "truthy (JObj fs) = True"
| "truthy (JFunction n) = True"

text \<open>\<open>a || b\<close>\<close>

definition js_or :: "json \<Rightarrow> json \<Rightarrow> json" where
  "js_or a b = (if truthy a then a else b)"

text \<open>\<open>typeof x\<close>\<close>

fun typeof :: "json \<Rightarrow> string" where
  "typeof JUndefined = ''undefined''"
| "typeof JNull = ''object''"
| "typeof (JBool b) = ''boolean''"
| "typeof (JNum n) = ''number''"
| "typeof (JStr s) = ''string''"
| "typeof (JArr xs) = ''object''"
| "typeof (JObj fs) = ''object''"
| "typeof (JFunction n) = ''function''"

text \<open>\<open>Array.isArray(x)\<close>\<close>

fun isArray :: "json \<Rightarrow> bool" where
  "isArray (JArr xs) = True"
| "isArray _ = False"

text \<open>
  What a plain object inherits from \<open>Object.prototype\<close>: under \<open>constructor\<close> the function
  \<open>Object\<close>, under ten more names the method of that name, and under \<open>__proto__\<close> the
  prototype itself, an object without enumerable properties (written as the empty object:
  it is truthy, of type \<open>object\<close>, not an array, and prints as one).
\<close>

definition prototype_methods :: "string list" where
  "prototype_methods =
     [''__defineGetter__'', ''__defineSetter__'', ''hasOwnProperty'', ''__lookupGetter__'',
      ''__lookupSetter__'', ''isPrototypeOf'', ''propertyIsEnumerable'', ''toString'',
      ''valueOf'', ''toLocaleString'']"

definition inherited :: "string \<Rightarrow> json" where
  "inherited k =
     (if k = ''constructor'' then JFunction ''Object''
      else if k \<in> set prototype_methods then JFunction k
      else if k = ''__proto__'' then JObj []
      else JUndefined)"

text \<open>
  \<open>o[k]\<close> on a plain object: the own property when there is one, the inherited member
  otherwise, \<open>undefined\<close> when there is neither.
\<close>

definition lookup :: "(string \<times> json) list \<Rightarrow> string \<Rightarrow> json" where
  "lookup fs k = (case map_of fs k of None \<Rightarrow> inherited k | Some v \<Rightarrow> v)"

text \<open>
  Integer keys: the decimal notation, without leading zeros, of a number up to
  \<open>2^32 - 2\<close>. They are enumerated before all other keys, in ascending order.
\<close>

definition array_index :: "string \<Rightarrow> int option" where
  "array_index k =
     (let n = foldl (\<lambda>n c. 10 * n + (of_char c - 48)) 0 k in
      if k \<noteq> [] \<and> list_all (\<lambda>c. c \<in> set ''0123456789'') k
           \<and> (k = ''0'' \<or> hd k \<noteq> CHR ''0'') \<and> n \<le> 4294967294
      then Some n else None)"

text \<open>Whether a new key \<open>k\<close> is enumerated before the existing key \<open>q\<close>.\<close>

definition enumerated_before :: "string \<Rightarrow> string \<Rightarrow> bool" where
  "enumerated_before k q =
     (case array_index k of
        None \<Rightarrow> False
      | Some n \<Rightarrow> (case array_index q of None \<Rightarrow> True | Some m \<Rightarrow> n < m))"

text \<open>A new own property, at its place in the enumeration order.\<close>

fun place :: "(string \<times> 'v) list \<Rightarrow> string \<Rightarrow> 'v \<Rightarrow> (string \<times> 'v) list" where
  "place [] k v = [(k, v)]"
| "place (p # ps) k v =
     (if enumerated_before k (fst p) then (k, v) # p # ps else p # place ps k v)"

text \<open>
  The definition of an own property, as an object literal and the spread \<open>{...o}\<close> do it:
  an existing property gets the value and keeps its place, a new one is created.
\<close>

definition put_own :: "(string \<times> 'v) list \<Rightarrow> string \<Rightarrow> 'v \<Rightarrow> (string \<times> 'v) list" where
  "put_own fs k v =
     (if k \<in> fst ` set fs then map (\<lambda>p. if fst p = k then (k, v) else p) fs
      else place fs k v)"

text \<open>
  \<open>o[k] = v\<close> on a plain object. It defines the own property, except for the key
  \<open>__proto__\<close> on an object that has no own property of that name: there the inherited
  setter runs, which replaces the prototype (when \<open>v\<close> is an object or \<open>null\<close>) or does
  nothing, and in both cases creates no own property.
\<close>

definition assign :: "(string \<times> 'v) list \<Rightarrow> string \<Rightarrow> 'v \<Rightarrow> (string \<times> 'v) list" where
  "assign fs k v =
     (if k = ''__proto__'' \<and> k \<notin> fst ` set fs then fs else put_own fs k v)"

text \<open>
  An object that takes several assignments may stop being plain: the setter replaces its
  prototype. A later assignment to \<open>__proto__\<close> then still reaches the setter, unless
  the new prototype is \<open>null\<close> (nothing is inherited any more) or an object with an own
  property \<open>__proto__\<close> (the lookup ends there); in these two cases it defines an own
  property. A primitive value leaves the prototype as it is. For every other key the own
  properties change as on a plain object. \<open>assign_built\<close> is \<open>o[k] = v\<close> on the own
  properties of such an object together with the flag that says whether the setter is
  still reached; \<open>assign\<close> is the case of one assignment.
\<close>

fun keeps_setter :: "json \<Rightarrow> bool" where
  "keeps_setter JNull = False"
| "keeps_setter (JObj fs) = (''__proto__'' \<notin> fst ` set fs)"
| "keeps_setter _ = True"

definition assign_built ::
  "(string \<times> json) list \<times> bool \<Rightarrow> string \<Rightarrow> json \<Rightarrow> (string \<times> json) list \<times> bool" where
  "assign_built ob k v =
     (if k = ''__proto__'' \<and> k \<notin> fst ` set (fst ob) \<and> snd ob then (fst ob, keeps_setter v)
      else (put_own (fst ob) k v, snd ob))"

text \<open>
  \<open>x.k\<close>: a \<open>TypeError\<close> on \<open>undefined\<close> and \<open>null\<close>, \<open>o[k]\<close> on an object, and
  \<open>undefined\<close> on booleans, numbers, strings, arrays and functions for the names the
  testers read this way (\<open>type\<close>, \<open>example\<close>, \<open>default\<close>, \<open>items\<close>, \<open>properties\<close>,
  \<open>$ref\<close>), none of which they carry.
\<close>

fun get :: "json \<Rightarrow> string \<Rightarrow> thrown + json" where
  "get JUndefined k = Inl type_error"
| "get JNull k = Inl type_error"
| "get (JObj fs) k = Inr (lookup fs k)"
| "get _ k = Inr JUndefined"

section \<open>Strings\<close>

text \<open>Decimal notation of a number, as template literals and \<open>String\<close> produce it.\<close>

fun show_nat :: "nat \<Rightarrow> string" where
  "show_nat n =
     (if n < 10 then [char_of (48 + n)]
      else show_nat (n div 10) @ [char_of (48 + n mod 10)])"

declare show_nat.simps [simp del]

definition show_int :: "int \<Rightarrow> string" where
  "show_int i = (if i < 0 then CHR ''-'' # show_nat (nat (- i)) else show_nat (nat i))"

text \<open>\<open>xs.join(sep)\<close> on a list of strings\<close>

fun join :: "string \<Rightarrow> string list \<Rightarrow> string" where
  "join sep [] = []"
| "join sep [x] = x"
| "join sep (x # y # ys) = x @ sep @ join sep (y # ys)"

section \<open>Route parameters (utils/parser)\<close>

text \<open>The character class \<open>[a-zA-Z0-9_]\<close>.\<close>

definition is_word :: "char \<Rightarrow> bool" where
  "is_word c =
     (c \<in> set ''abcdefghijklmnopqrstuvwxyzABCDEFGHIJKLMNOPQRSTUVWXYZ0123456789_'')"

text \<open>
  The loop \<open>while ((match = regex.exec(path)) !== null) params.push(match[1])\<close> for the
  global pattern \<open>/:([a-zA-Z0-9_]+)/g\<close>, as the list of the names it pushes. A match starts
  at the leftmost colon that a word character follows, the group takes every word character
  after it, and the search resumes where the match ended.
\<close>

function colon_params :: "string \<Rightarrow> string list" where
  "colon_params [] = []"
| "colon_params (c # cs) =
     (if c = CHR '':'' \<and> takeWhile is_word cs \<noteq> []
      then takeWhile is_word cs # colon_params (dropWhile is_word cs)
      else colon_params cs)"
  by pat_completeness auto
termination
  by (relation "measure length") (auto simp: length_dropWhile_le less_Suc_eq_le)

text \<open>
  The same loop for \<open>/{([a-zA-Z0-9_]+)}/g\<close>: an opening brace, at least one word character,
  and a closing brace right after the last of them. Where the closing brace is missing there
  is no match at this brace, and the search goes on from the next character.
\<close>

function brace_params :: "string \<Rightarrow> string list" where
  "brace_params [] = []"
| "brace_params (c # cs) =
     (if c = CHR ''{'' \<and> takeWhile is_word cs \<noteq> []
         \<and> dropWhile is_word cs \<noteq> [] \<and> hd (dropWhile is_word cs) = CHR ''}''
      then takeWhile is_word cs # brace_params (tl (dropWhile is_word cs))
      else brace_params cs)"
  by pat_completeness auto
termination
proof (relation "measure length")
  show "wf (measure length)" by simp
next
  fix c :: char and cs :: string
  have "length (tl (dropWhile is_word cs)) \<le> length cs"
    using length_dropWhile_le [of is_word cs] by simp
  then show "(tl (dropWhile is_word cs), c # cs) \<in> measure length" by simp
next
  fix c :: char and cs :: string
  show "(cs, c # cs) \<in> measure length" by simp
qed

text \<open>\<open>parseRouteParams\<close>: the colon loop runs to its end first, then the brace loop.\<close>

definition parseRouteParams :: "string \<Rightarrow> string list" where
  "parseRouteParams path = colon_params path @ brace_params path"

section \<open>Data model (utils/types)\<close>

text \<open>
  The interfaces of \<open>utils/types\<close> as records. Field names carry a prefix, since several
  interfaces share names (\<open>description\<close>, \<open>schema\<close>, \<open>format\<close>) and some are reserved
  (\<open>in\<close>, \<open>type\<close>, \<open>default\<close>). An optional field of type \<open>any\<close> is a \<open>json\<close>, absent
  when \<open>JUndefined\<close>; any other optional field is an \<open>option\<close>.
\<close>

datatype HttpMethod = GET | POST | PUT | DELETE | PATCH | HEAD | OPTIONS

datatype ResponseFormat = JSON | XML | TEXT | HTML | BINARY

datatype ParamIn = InPath | InQuery | InBody | InHeader

record Parameter =
  p_name :: string
  p_type :: string
  p_required :: bool
  p_in :: ParamIn
  p_description :: "string option"
  p_default :: json
  p_example :: json
  p_enum :: "json list option"
  p_format :: "string option"
  p_schema :: json

record ResponseSpec =
  r_statusCode :: int
  r_description :: string
  r_format :: ResponseFormat
  r_schema :: json

record ApiEndpoint =
  e_path :: string
  e_method :: HttpMethod
  e_parameters :: "Parameter list"
  e_responses :: "ResponseSpec list"
  e_description :: string
  e_summary :: string
  e_tags :: "string list"
  e_deprecated :: bool

record TestConfig =
  c_baseUrl :: string
  c_headers :: "(string \<times> string) list option"
  c_timeout :: "int option"
  c_validateSchema :: "bool option"
  c_paramValues :: "(string \<times> json) list option"

record EndpointTestResult =
  t_endpoint :: ApiEndpoint
  t_success :: bool
  t_statusCode :: "int option"
  t_responseTime :: "int option"
  t_error :: "string option"
  t_responseBody :: json

record SchemaValidationResult =
  v_endpoint :: ApiEndpoint
  v_valid :: bool
  v_errors :: "json list option"

text \<open>\<open>endpoint.method.toLowerCase()\<close>\<close>

fun method_lower :: "HttpMethod \<Rightarrow> string" where
  "method_lower GET = ''get''"
| "method_lower POST = ''post''"
| "method_lower PUT = ''put''"
| "method_lower DELETE = ''delete''"
| "method_lower PATCH = ''patch''"
| "method_lower HEAD = ''head''"
| "method_lower OPTIONS = ''options''"

section \<open>The outside world\<close>

text \<open>
  What the testers call and this repository does not define: the HTTP client, the schema
  compiler and \<open>JSON.stringify\<close>. The HTTP client answers a request with a throw (a transport
  failure) or with a response, whatever its status (\<open>validateStatus: () => true\<close>), and the
  time the call took (\<open>Date.now()\<close> after minus before); it reads and changes the state
  \<open>'w\<close> of the network, so two equal requests may be answered differently. The compiler
  throws on a malformed schema or returns the validating function, whose call gives the
  verdict and \<open>validate.errors\<close> (\<open>null\<close> or an array).
\<close>

record AxiosRequestConfig =
  a_method :: string
  a_url :: string
  a_headers :: "(string \<times> string) list"
  a_timeout :: int
  a_data :: json

record AxiosResponse =
  resp_status :: int
  resp_data :: json

type_synonym validate_fn = "json \<Rightarrow> thrown + bool \<times> json list option"

record 'w env =
  axios :: "AxiosRequestConfig \<Rightarrow> 'w \<Rightarrow> (thrown + AxiosResponse \<times> int) \<times> 'w"
  ajv_compile :: "json \<Rightarrow> thrown + validate_fn"
  JSON_stringify :: "json \<Rightarrow> string"

section \<open>Endpoint tester (testers/endpoint)\<close>

text \<open>
  \<open>paramValues && paramValues[k] !== undefined\<close>, with the value \<open>paramValues[k]\<close> when
  the test holds.
\<close>

definition provided :: "(string \<times> json) list option \<Rightarrow> string \<Rightarrow> json option" where
  "provided paramValues k =
     (case paramValues of
        None \<Rightarrow> None
      | Some pv \<Rightarrow> (if lookup pv k \<noteq> JUndefined then Some (lookup pv k) else None))"

definition getParameterValue :: "Parameter \<Rightarrow> TestConfig \<Rightarrow> json" where
  "getParameterValue param config =
     (case provided (c_paramValues config) (p_name param) of
        Some v \<Rightarrow> v
      | None \<Rightarrow>
          (if p_type param = ''string''
             then js_or (p_example param) (JStr (''test-'' @ p_name param))
           else if p_type param = ''number'' \<or> p_type param = ''integer''
             then js_or (p_example param) (JNum 123)
           else if p_type param = ''boolean''
             then js_or (p_example param) (JBool True)
           else if p_type param = ''array''
             then js_or (p_example param) (JArr [])
           else if p_type param = ''object''
             then js_or (p_example param) (JObj [])
           else js_or (p_example param) (JStr (''test-'' @ p_name param))))"

text \<open>
  \<open>Object.entries(x)\<close>: a \<open>TypeError\<close> on \<open>undefined\<close> and \<open>null\<close>; the properties of an
  object; index and element for an array, index and character for a string; nothing for a
  boolean, a number or a function.
\<close>

fun entries :: "json \<Rightarrow> thrown + (string \<times> json) list" where
  "entries JUndefined = Inl type_error"
| "entries JNull = Inl type_error"
| "entries (JObj fs) = Inr fs"
| "entries (JArr xs) = Inr (zip (map show_nat [0..<length xs]) xs)"
| "entries (JStr s) = Inr (zip (map show_nat [0..<length s]) (map (\<lambda>c. JStr [c]) s))"
| "entries _ = Inr []"

text \<open>\<open>schema.example || schema.default || literal\<close>\<close>

definition example_or_default :: "json \<Rightarrow> json \<Rightarrow> thrown + json" where
  "example_or_default schema literal =
     and_then (get schema ''example'') (\<lambda>example.
       if truthy example then Inr example
       else and_then (get schema ''default'') (\<lambda>default. Inr (js_or default literal)))"

text \<open>
  The termination of the generator: a schema read from a property of a schema is a smaller
  tree, and the entries of a value are no larger than the value.
\<close>

fun widest :: "(string \<times> json) list \<Rightarrow> nat" where
  "widest [] = 0"
| "widest (p # ps) = max (size (snd p)) (widest ps)"

lemma and_then_cong [fundef_cong]:
  "m = m' \<Longrightarrow> (\<And>v. m' = Inr v \<Longrightarrow> f v = f' v) \<Longrightarrow> and_then m f = and_then m' f'"
  by (auto simp: and_then_def split: sum.splits)

lemma inherited_schema_names [simp]:
  "inherited ''items'' = JUndefined" "inherited ''properties'' = JUndefined"
  "inherited ''type'' = JUndefined" "inherited ''example'' = JUndefined"
  "inherited ''default'' = JUndefined" "inherited ''$ref'' = JUndefined"
  by (simp_all add: inherited_def prototype_methods_def)

lemma get_size:
  "get s k = Inr v \<Longrightarrow> truthy v \<Longrightarrow> inherited k = JUndefined \<Longrightarrow> size v < size s"
proof (cases s)
  case (JObj fs)
  assume "get s k = Inr v" "truthy v" "inherited k = JUndefined"
  with JObj have "map_of fs k = Some v"
    by (auto simp: lookup_def split: option.splits)
  then have "(k, v) \<in> set fs" by (rule map_of_SomeD)
  then have "size v < size (JObj fs)"
    by (induction fs) auto
  with JObj show ?thesis by simp
qed auto

lemma widest_le: "(\<And>p. p \<in> set es \<Longrightarrow> size (snd p) \<le> n) \<Longrightarrow> widest es \<le> n"
  by (induction es) auto

lemma zip_snd_in: "q \<in> set (zip ks vs) \<Longrightarrow> snd q \<in> set vs"
  by (cases q) (auto dest: set_zip_rightD)

lemma widest_obj: "widest fs \<le> size (JObj fs)"
  by (induction fs) auto

lemma size_elem: "x \<in> set xs \<Longrightarrow> size x \<le> size (JArr xs)"
  by (induction xs) auto

lemma entries_size: "entries p = Inr es \<Longrightarrow> widest es \<le> size p"
proof (cases p)
  case (JObj fs)
  assume "entries p = Inr es"
  with JObj have "es = fs" by simp
  with JObj show ?thesis using widest_obj [of fs] by simp
next
  case (JArr xs)
  assume "entries p = Inr es"
  with JArr have es: "es = zip (map show_nat [0..<length xs]) xs" by simp
  have "widest es \<le> size (JArr xs)"
  proof (rule widest_le)
    fix q assume "q \<in> set es"
    then have "snd q \<in> set xs" unfolding es by (rule zip_snd_in)
    then show "size (snd q) \<le> size (JArr xs)" by (rule size_elem)
  qed
  then show ?thesis using JArr by simp
next
  case (JStr s)
  assume "entries p = Inr es"
  with JStr have es: "es = zip (map show_nat [0..<length s]) (map (\<lambda>c. JStr [c]) s)" by simp
  have "widest es \<le> 0"
  proof (rule widest_le)
    fix q assume "q \<in> set es"
    then have "snd q \<in> set (map (\<lambda>c. JStr [c]) s)" unfolding es by (rule zip_snd_in)
    then show "size (snd q) \<le> 0" by auto
  qed
  then show ?thesis by simp
qed auto

lemma properties_size:
  "get schema k = Inr p \<Longrightarrow> truthy p \<Longrightarrow> inherited k = JUndefined \<Longrightarrow>
     entries p = Inr es \<Longrightarrow> widest es < size schema"
  using get_size [of schema k p] entries_size [of p es] by simp

text \<open>
  \<open>generateDataFromSchema\<close> and \<open>generateObjectFromSchema\<close>. The \<open>for\<close> loop over
  \<open>Object.entries(schema.properties)\<close> is \<open>generateProperties\<close>: the entries still to
  visit, and \<open>result\<close> as built so far. The keys of the entries differ from each other, so
  at most one assignment is to \<open>__proto__\<close>.
\<close>

function generateDataFromSchema :: "json \<Rightarrow> (string \<times> json) list option \<Rightarrow> thrown + json"
  and generateObjectFromSchema :: "json \<Rightarrow> (string \<times> json) list option \<Rightarrow> thrown + json"
  and generateProperties ::
    "(string \<times> json) list \<Rightarrow> (string \<times> json) list option \<Rightarrow> (string \<times> json) list
       \<Rightarrow> thrown + (string \<times> json) list"
where
  "generateDataFromSchema schema paramValues =
     (if \<not> truthy schema then Inr JNull
      else and_then (get schema ''type'') (\<lambda>ty.
        if typeof ty = ''string'' then
          (if ty = JStr ''string'' then example_or_default schema (JStr ''test-string'')
           else if ty = JStr ''number'' \<or> ty = JStr ''integer'' then
             example_or_default schema (JNum 123)
           else if ty = JStr ''boolean'' then example_or_default schema (JBool True)
           else if ty = JStr ''array'' then
             and_then (get schema ''items'') (\<lambda>items.
               if truthy items
               then and_then (generateDataFromSchema items paramValues) (\<lambda>v. Inr (JArr [v]))
               else Inr (JArr []))
           else if ty = JStr ''object'' then generateObjectFromSchema schema paramValues
           else Inr JNull)
        else and_then (get schema ''$ref'') (\<lambda>ref.
          if truthy ref then Inr (JObj []) else Inr (JObj []))))"
| "generateObjectFromSchema schema paramValues =
     and_then (get schema ''properties'') (\<lambda>properties.
       if \<not> truthy properties then Inr (JObj [])
       else and_then (entries properties) (\<lambda>es.
         and_then (generateProperties es paramValues []) (\<lambda>result. Inr (JObj result))))"
| "generateProperties [] paramValues result = Inr result"
| "generateProperties ((propName, propSchema) # rest) paramValues result =
     (case provided paramValues propName of
        Some v \<Rightarrow> generateProperties rest paramValues (assign result propName v)
      | None \<Rightarrow>
          and_then (generateDataFromSchema propSchema paramValues) (\<lambda>v.
            generateProperties rest paramValues (assign result propName v)))"
  by pat_completeness auto
termination
  by (relation "inv_image (less_than <*lex*> less_than)
    (\<lambda>x. case x of
        Inl (schema, pv) \<Rightarrow> (size schema, 1)
      | Inr (Inl (schema, pv)) \<Rightarrow> (size schema, 0)
      | Inr (Inr (es, pv, result)) \<Rightarrow> (widest es, 2 + length es))")
    (auto simp: get_size properties_size inherited_schema_names less_Suc_eq_le)

declare generateDataFromSchema.simps [simp del]
declare generateObjectFromSchema.simps [simp del]

text \<open>\<open>String(value)\<close>; an array joins its elements with commas, an empty string standing
  for \<open>null\<close> and \<open>undefined\<close>; a built-in function prints as Node prints it.\<close>

fun js_String :: "json \<Rightarrow> string" where
  "js_String JUndefined = ''undefined''"
| "js_String JNull = ''null''"
| "js_String (JBool b) = (if b then ''true'' else ''false'')"
| "js_String (JNum n) = show_int n"
| "js_String (JStr s) = s"
| "js_String (JArr xs) =
     join '','' (map (\<lambda>x. if x = JUndefined \<or> x = JNull then [] else js_String x) xs)"
| "js_String (JObj fs) = ''[object Object]''"
| "js_String (JFunction n) = ''function '' @ n @ ''() { [native code] }''"

text \<open>
  \<open>encodeURIComponent\<close>: letters, digits and \<open>- _ . ! ~ * ' ( )\<close> stay, every other code
  unit becomes the percent-escaped bytes of its UTF-8 encoding (one byte below 128, two
  from 128 to 255).
\<close>

definition unreserved :: "char \<Rightarrow> bool" where
  "unreserved c = (is_word c \<or> c \<in> set ''-.!~*()'' \<or> c = CHR 0x27)"

definition percent :: "nat \<Rightarrow> string" where
  "percent b = [CHR ''%'', ''0123456789ABCDEF'' ! (b div 16), ''0123456789ABCDEF'' ! (b mod 16)]"

definition encode_unit :: "char \<Rightarrow> string" where
  "encode_unit c =
     (let n = (of_char c :: nat) in
      if unreserved c then [c]
      else if n < 128 then percent n
      else percent (192 + n div 64) @ percent (128 + n mod 64))"

definition encodeURIComponent :: "string \<Rightarrow> string" where
  "encodeURIComponent s = concat (map encode_unit s)"

text \<open>
  \<open>s.replace(pat, rep)\<close> with a string pattern: the first occurrence is replaced. The
  replacement is always an encoded component here, which has no \<open>$\<close>, so no replacement
  pattern applies.
\<close>

fun replace_first :: "string \<Rightarrow> string \<Rightarrow> string \<Rightarrow> string" where
  "replace_first pat rep [] = (if pat = [] then rep else [])"
| "replace_first pat rep (c # cs) =
     (if take (length pat) (c # cs) = pat then rep @ drop (length pat) (c # cs)
      else c # replace_first pat rep cs)"

definition buildUrl :: "ApiEndpoint \<Rightarrow> TestConfig \<Rightarrow> string" where
  "buildUrl endpoint config =
     (let pathParams = filter (\<lambda>p. p_in p = InPath) (e_parameters endpoint);
          path = fold (\<lambda>param path.
                   replace_first (CHR '':'' # p_name param)
                     (encodeURIComponent (js_String (getParameterValue param config))) path)
                   pathParams (e_path endpoint);
          queryParams = filter (\<lambda>p. p_in p = InQuery) (e_parameters endpoint);
          queryString = join ''&'' (map (\<lambda>param.
                   p_name param @ ''='' @
                     encodeURIComponent (js_String (getParameterValue param config)))
                   queryParams);
          path = (if length queryParams > 0
                  then path @ (if CHR ''?'' \<in> set path then ''&'' @ queryString
                               else ''?'' @ queryString)
                  else path);
          baseUrl = c_baseUrl config;
          baseUrl = (if baseUrl \<noteq> [] \<and> last baseUrl = CHR ''/'' \<and> path \<noteq> [] \<and> hd path = CHR ''/''
                     then butlast baseUrl else baseUrl)
      in baseUrl @ path)"

definition buildHeaders :: "ApiEndpoint \<Rightarrow> TestConfig \<Rightarrow> (string \<times> string) list" where
  "buildHeaders endpoint config =
     (let headers = fold (\<lambda>h hs. put_own hs (fst h) (snd h))
                      (case c_headers config of None \<Rightarrow> [] | Some hs \<Rightarrow> hs)
                      [(''Content-Type'', ''application/json'')];
          headerParams = filter (\<lambda>p. p_in p = InHeader) (e_parameters endpoint)
      in fold (\<lambda>param hs.
                 assign hs (p_name param) (js_String (getParameterValue param config)))
           headerParams headers)"

definition buildRequestBody :: "ApiEndpoint \<Rightarrow> TestConfig \<Rightarrow> thrown + json" where
  "buildRequestBody endpoint config =
     (let bodyParams = filter (\<lambda>p. p_in p = InBody) (e_parameters endpoint) in
      case bodyParams of
        [] \<Rightarrow> Inr JNull
      | first # others \<Rightarrow>
          if truthy (p_schema first)
          then generateDataFromSchema (p_schema first) (c_paramValues config)
          else Inr (JObj (fst (fold (\<lambda>param body.
                 assign_built body (p_name param) (getParameterValue param config))
                 bodyParams ([], True)))))"

text \<open>
  The result both \<open>catch\<close> handlers build (the one of \<open>testEndpoint\<close> and the one of the
  loop of \<open>testApiEndpoints\<close>): no status, no time, no body.
\<close>

definition caught :: "ApiEndpoint \<Rightarrow> thrown \<Rightarrow> EndpointTestResult" where
  "caught endpoint error =
     \<lparr> t_endpoint = endpoint, t_success = False, t_statusCode = None, t_responseTime = None,
       t_error = Some (error_message error), t_responseBody = JUndefined \<rparr>"

text \<open>
  \<open>testEndpoint\<close>, in three parts. \<open>axiosConfig\<close> is the request configuration the \<open>try\<close>
  block builds, with \<open>data\<close> attached under the test
  \<open>data && ['post', 'put', 'patch'].includes(endpoint.method.toLowerCase())\<close>.
\<close>

definition axiosConfig :: "ApiEndpoint \<Rightarrow> TestConfig \<Rightarrow> json \<Rightarrow> AxiosRequestConfig" where
  "axiosConfig endpoint config data =
     \<lparr> a_method = method_lower (e_method endpoint),
       a_url = buildUrl endpoint config,
       a_headers = buildHeaders endpoint config,
       a_timeout = (case c_timeout config of
                      None \<Rightarrow> 5000
                    | Some t \<Rightarrow> if t \<noteq> 0 then t else 5000),
       a_data = (if truthy data \<and>
                    method_lower (e_method endpoint) \<in> set [''post'', ''put'', ''patch'']
                 then data else JUndefined) \<rparr>"

text \<open>
  The rest of the \<open>try\<close> block, once the response is there: the success classification and
  the result.
\<close>

definition responseResult :: "ApiEndpoint \<Rightarrow> AxiosResponse \<Rightarrow> int \<Rightarrow> EndpointTestResult" where
  "responseResult endpoint response responseTime =
     (let expectedSuccessStatus =
            map r_statusCode
              (filter (\<lambda>r. r_statusCode r \<ge> 200 \<and> r_statusCode r < 300)
                 (e_responses endpoint));
          successStatusCodes =
            (if length expectedSuccessStatus > 0 then expectedSuccessStatus else [200]);
          success = (resp_status response \<in> set successStatusCodes);
          result =
            \<lparr> t_endpoint = endpoint, t_success = success,
              t_statusCode = Some (resp_status response),
              t_responseTime = Some responseTime,
              t_error = None,
              t_responseBody = resp_data response \<rparr>
      in if \<not> success
         then result \<lparr> t_error := Some (''Expected status '' @
                join '' or '' (map show_int successStatusCodes) @
                '', got '' @ show_int (resp_status response)) \<rparr>
         else result)"

text \<open>
  The whole function: the \<open>try\<close> block is \<open>attempt\<close>, and the handler turns what it
  throws into a result. Logging is left out.
\<close>

definition testEndpoint ::
  "'w env \<Rightarrow> ApiEndpoint \<Rightarrow> TestConfig \<Rightarrow> 'w \<Rightarrow> (thrown + EndpointTestResult) \<times> 'w" where
  "testEndpoint env endpoint config w =
     (let attempt =
        (case buildRequestBody endpoint config of
           Inl error \<Rightarrow> (Inl error, w)
         | Inr data \<Rightarrow>
            (case axios env (axiosConfig endpoint config data) w of
               (Inl error, w') \<Rightarrow> (Inl error, w')
             | (Inr (response, responseTime), w') \<Rightarrow>
                 (Inr (responseResult endpoint response responseTime), w')))
      in case attempt of
           (Inl error, w') \<Rightarrow> (Inr (caught endpoint error), w')
         | (Inr result, w') \<Rightarrow> (Inr result, w'))"

section \<open>Schema validator (testers/schema)\<close>

text \<open>
  \<open>validateResponseSchema\<close>. The status code is the one \<open>testApiEndpoints\<close> passes,
  \<open>result.statusCode\<close>, which a result without a status leaves \<open>undefined\<close> (\<open>None\<close>); no
  declared status code equals it.
\<close>

definition validateResponseSchema ::
  "'w env \<Rightarrow> ApiEndpoint \<Rightarrow> int option \<Rightarrow> json \<Rightarrow> thrown + SchemaValidationResult" where
  "validateResponseSchema env endpoint statusCode responseBody =
     (case find (\<lambda>r. Some (r_statusCode r) = statusCode) (e_responses endpoint) of
        None \<Rightarrow> Inr \<lparr> v_endpoint = endpoint, v_valid = True, v_errors = None \<rparr>
      | Some responseDefinition \<Rightarrow>
          if \<not> truthy (r_schema responseDefinition)
          then Inr \<lparr> v_endpoint = endpoint, v_valid = True, v_errors = None \<rparr>
          else
            (case and_then (ajv_compile env (r_schema responseDefinition)) (\<lambda>validate.
                    and_then (validate responseBody) (\<lambda>verdict.
                      if \<not> fst verdict
                      then Inr \<lparr> v_endpoint = endpoint, v_valid = False,
                                 v_errors = Some (case snd verdict of
                                     Some errors \<Rightarrow> errors
                                   | None \<Rightarrow>
                                       [JObj [(''message'', JStr ''Unknown validation error'')]]) \<rparr>
                      else Inr \<lparr> v_endpoint = endpoint, v_valid = True, v_errors = None \<rparr>))
             of
               Inl error \<Rightarrow>
                 Inr \<lparr> v_endpoint = endpoint, v_valid = False,
                       v_errors = Some [JObj [(''message'', JStr (error_message error))]] \<rparr>
             | Inr result \<Rightarrow> Inr result))"

text \<open>The violations of \<open>validateRequestParams\<close>.\<close>

definition missing_violation :: "string \<Rightarrow> json" where
  "missing_violation name =
     JObj [(''message'', JStr (''Missing required parameter: '' @ name))]"

definition type_violation :: "Parameter \<Rightarrow> string \<Rightarrow> json \<Rightarrow> json" where
  "type_violation param expected value =
     JObj [(''message'', JStr (''Parameter '' @ p_name param @ '' should be '' @ expected @
       '', got '' @ typeof value))]"

text \<open>
  The body of the second \<open>forEach\<close> of \<open>validateRequestParams\<close>: what it pushes on
  \<open>typeErrors\<close> for one parameter.
\<close>

definition check_type :: "Parameter \<Rightarrow> (string \<times> json) list \<Rightarrow> json list" where
  "check_type param params =
     (if lookup params (p_name param) \<noteq> JUndefined then
        (let value = lookup params (p_name param) in
         if p_type param = ''number'' \<or> p_type param = ''integer'' then
           (if typeof value \<noteq> ''number'' then [type_violation param ''a number'' value] else [])
         else if p_type param = ''boolean'' then
           (if typeof value \<noteq> ''boolean'' then [type_violation param ''a boolean'' value] else [])
         else if p_type param = ''string'' then
           (if typeof value \<noteq> ''string'' then [type_violation param ''a string'' value] else [])
         else if p_type param = ''array'' then
           (if \<not> isArray value then [type_violation param ''an array'' value] else [])
         else if p_type param = ''object'' then
           (if typeof value \<noteq> ''object'' \<or> value = JNull \<or> isArray value
            then [type_violation param ''an object'' value] else [])
         else [])
      else [])"

definition validateRequestParams ::
  "ApiEndpoint \<Rightarrow> (string \<times> json) list \<Rightarrow> SchemaValidationResult" where
  "validateRequestParams endpoint params =
     (let missingParams =
            map p_name (filter (\<lambda>param. lookup params (p_name param) = JUndefined)
              (filter p_required (e_parameters endpoint)))
      in if length missingParams > 0
         then \<lparr> v_endpoint = endpoint, v_valid = False,
                 v_errors = Some (map missing_violation missingParams) \<rparr>
         else
           (let typeErrors = concat (map (\<lambda>param. check_type param params) (e_parameters endpoint))
            in if length typeErrors > 0
               then \<lparr> v_endpoint = endpoint, v_valid = False, v_errors = Some typeErrors \<rparr>
               else \<lparr> v_endpoint = endpoint, v_valid = True, v_errors = None \<rparr>))"

section \<open>Test orchestrator (testers/index)\<close>

text \<open>
  The \<open>for\<close> loop of \<open>testApiEndpoints\<close>: the endpoints still to test, \<open>results\<close> as
  pushed so far, and the state of the network. \<open>results.push(result)\<close> comes before the
  schema check, and a failed check then writes \<open>success\<close> and \<open>error\<close> of the object that
  was pushed: the last element of \<open>results\<close> is replaced. A throw after the push reaches
  the handler, which pushes once more.
\<close>

fun test_loop ::
  "'w env \<Rightarrow> TestConfig \<Rightarrow> ApiEndpoint list \<Rightarrow> EndpointTestResult list \<Rightarrow> 'w
     \<Rightarrow> EndpointTestResult list \<times> 'w" where
  "test_loop env config [] results w = (results, w)"
| "test_loop env config (endpoint # rest) results w =
     (case testEndpoint env endpoint config w of
        (Inl error, w') \<Rightarrow> test_loop env config rest (results @ [caught endpoint error]) w'
      | (Inr result, w') \<Rightarrow>
          (let pushed = results @ [result] in
           if c_validateSchema config = Some True \<and> t_success result
                \<and> truthy (t_responseBody result)
           then
             (case validateResponseSchema env endpoint (t_statusCode result)
                     (t_responseBody result) of
                Inl error \<Rightarrow> test_loop env config rest (pushed @ [caught endpoint error]) w'
              | Inr schemaResult \<Rightarrow>
                  if \<not> v_valid schemaResult
                  then test_loop env config rest
                         (butlast pushed @ [result \<lparr> t_success := False,
                            t_error := Some (''Schema validation failed: '' @
                              JSON_stringify env (case v_errors schemaResult of
                                  None \<Rightarrow> JUndefined
                                | Some errors \<Rightarrow> JArr errors)) \<rparr>]) w'
                  else test_loop env config rest pushed w')
           else test_loop env config rest pushed w'))"

definition testApiEndpoints ::
  "'w env \<Rightarrow> ApiEndpoint list \<Rightarrow> TestConfig \<Rightarrow> 'w \<Rightarrow> EndpointTestResult list \<times> 'w" where
  "testApiEndpoints env endpoints config w = test_loop env config endpoints [] w"

section \<open>Notions of the specification\<close>

text \<open>
  The occurrences of a named segment in a path. The name that starts after position \<open>i\<close>
  is the longest run of word characters there. A segment in colon notation occurs at \<open>i\<close>
  when a colon stands at \<open>i\<close> and the name after it is not empty; a segment in brace
  notation occurs at \<open>i\<close> when an opening brace stands at \<open>i\<close>, the name after it is not
  empty, and a closing brace follows the name.
\<close>

definition name_at :: "string \<Rightarrow> nat \<Rightarrow> string" where
  "name_at path i = takeWhile is_word (drop (Suc i) path)"

definition colon_at :: "string \<Rightarrow> nat \<Rightarrow> bool" where
  "colon_at path i = (i < length path \<and> path ! i = CHR '':'' \<and> name_at path i \<noteq> [])"

definition brace_at :: "string \<Rightarrow> nat \<Rightarrow> bool" where
  "brace_at path i =
     (i < length path \<and> path ! i = CHR ''{'' \<and> name_at path i \<noteq> []
      \<and> Suc i + length (name_at path i) < length path
      \<and> path ! (Suc i + length (name_at path i)) = CHR ''}'')"

text \<open>
  The positions of the occurrences in each notation, from left to right, and the names of
  all occurrences from left to right.
\<close>

definition colon_positions :: "string \<Rightarrow> nat list" where
  "colon_positions path = filter (colon_at path) [0..<length path]"

definition brace_positions :: "string \<Rightarrow> nat list" where
  "brace_positions path = filter (brace_at path) [0..<length path]"

definition names_left_to_right :: "string \<Rightarrow> string list" where
  "names_left_to_right path =
     map (name_at path) (filter (\<lambda>i. colon_at path i \<or> brace_at path i) [0..<length path])"

text \<open>
  The declared success codes in the words of the specification: the status codes of the
  declared responses that lie in [200, 300).
\<close>

definition declared_2xx :: "ApiEndpoint \<Rightarrow> int list" where
  "declared_2xx endpoint =
     filter (\<lambda>c. 200 \<le> c \<and> c < 300) (map r_statusCode (e_responses endpoint))"

text \<open>Worlds for the worked cases: an HTTP client that answers every request with the same
  response after 12 ms, a compiler whose validating function rejects every body, and a
  compiler that throws on every schema.\<close>

definition rejecting :: "json \<Rightarrow> thrown + validate_fn" where
  "rejecting schema =
     Inr (\<lambda>body. Inr (False, Some [JObj [(''message'', JStr ''must be object'')]]))"

definition malformed :: "json \<Rightarrow> thrown + validate_fn" where
  "malformed schema = Inl (JsError ''schema is invalid'')"

definition answering :: "AxiosResponse \<Rightarrow> (json \<Rightarrow> thrown + validate_fn) \<Rightarrow> unit env" where
  "answering response compile =
     \<lparr> axios = (\<lambda>request w. (Inr (response, 12), w)),
       ajv_compile = compile,
       JSON_stringify = (\<lambda>v. ''[...]'') \<rparr>"

text \<open>
  A world that counts the requests made so far, with an HTTP client whose first request
  fails (connection refused) and whose later requests get the given response.
\<close>

definition flaky :: "AxiosResponse \<Rightarrow> nat env" where
  "flaky response =
     \<lparr> axios = (\<lambda>request n.
         (if n = 0 then Inl (JsError ''connect ECONNREFUSED'') else Inr (response, 12), Suc n)),
       ajv_compile = rejecting,
       JSON_stringify = (\<lambda>v. ''[...]'') \<rparr>"

section \<open>Inputs for the worked cases\<close>

text \<open>
  Short forms of the records, for the concrete cases below: a parameter with a name, a
  type and a location and nothing else, a response with a status code only, an endpoint
  with a method, a path, parameters and responses, and a configuration with a base URL
  only.
\<close>

definition plain_param :: "string \<Rightarrow> string \<Rightarrow> ParamIn \<Rightarrow> Parameter" where
  "plain_param name ty loc =
     \<lparr> p_name = name, p_type = ty, p_required = False, p_in = loc, p_description = None,
       p_default = JUndefined, p_example = JUndefined, p_enum = None, p_format = None,
       p_schema = JUndefined \<rparr>"

definition plain_response :: "int \<Rightarrow> ResponseSpec" where
  "plain_response code =
     \<lparr> r_statusCode = code, r_description = [], r_format = JSON, r_schema = JUndefined \<rparr>"

definition plain_endpoint ::
  "HttpMethod \<Rightarrow> string \<Rightarrow> Parameter list \<Rightarrow> ResponseSpec list \<Rightarrow> ApiEndpoint" where
  "plain_endpoint m path params resps =
     \<lparr> e_path = path, e_method = m, e_parameters = params, e_responses = resps,
       e_description = [], e_summary = [], e_tags = [], e_deprecated = False \<rparr>"

definition plain_config :: TestConfig where
  "plain_config =
     \<lparr> c_baseUrl = ''http://localhost:3000'', c_headers = None, c_timeout = None,
       c_validateSchema = None, c_paramValues = None \<rparr>"

section \<open>Properties of the route parameter parser\<close>

lemma not_word_colon: "\<not> is_word (CHR '':'')"
  by (simp add: is_word_def)

lemma not_word_lbrace: "\<not> is_word (CHR ''{'')"
  by (simp add: is_word_def)

lemma colon_params_skip:
  "CHR '':'' \<notin> set xs \<Longrightarrow> colon_params (xs @ ys) = colon_params ys"
  by (induction xs) auto

lemma brace_params_skip:
  "CHR ''{'' \<notin> set xs \<Longrightarrow> brace_params (xs @ ys) = brace_params ys"
  by (induction xs) auto

lemma takeWhile_word_no: "\<not> is_word c \<Longrightarrow> c \<notin> set (takeWhile is_word xs)"
  by (auto dest: set_takeWhileD)

text \<open>Each loop tests every position on its own: a match never hides a later one.\<close>

lemma colon_params_Cons:
  "colon_params (c # cs) =
     (if c = CHR '':'' \<and> takeWhile is_word cs \<noteq> [] then [takeWhile is_word cs] else [])
     @ colon_params cs"
proof -
  have "colon_params (takeWhile is_word cs @ dropWhile is_word cs)
          = colon_params (dropWhile is_word cs)"
    by (rule colon_params_skip) (rule takeWhile_word_no [OF not_word_colon])
  then have "colon_params cs = colon_params (dropWhile is_word cs)" by simp
  then show ?thesis by simp
qed

lemma brace_params_Cons:
  "brace_params (c # cs) =
     (if c = CHR ''{'' \<and> takeWhile is_word cs \<noteq> []
         \<and> dropWhile is_word cs \<noteq> [] \<and> hd (dropWhile is_word cs) = CHR ''}''
      then [takeWhile is_word cs] else [])
     @ brace_params cs"
proof (cases "c = CHR ''{'' \<and> takeWhile is_word cs \<noteq> []
         \<and> dropWhile is_word cs \<noteq> [] \<and> hd (dropWhile is_word cs) = CHR ''}''")
  case False
  then show ?thesis by auto
next
  case True
  then have d: "dropWhile is_word cs = CHR ''}'' # tl (dropWhile is_word cs)"
    by (cases "dropWhile is_word cs") auto
  have "cs = (takeWhile is_word cs @ ''}'') @ tl (dropWhile is_word cs)"
    using d takeWhile_dropWhile_id [of is_word cs] by (metis append.assoc append_Cons append_Nil)
  moreover have "CHR ''{'' \<notin> set (takeWhile is_word cs @ ''}'')"
    using takeWhile_word_no [OF not_word_lbrace, of cs] by simp
  ultimately have "brace_params cs = brace_params (tl (dropWhile is_word cs))"
    using brace_params_skip [of "takeWhile is_word cs @ ''}''" "tl (dropWhile is_word cs)"]
    by simp
  with True show ?thesis by simp
qed

lemma drop_step: "i < length path \<Longrightarrow> drop i path = path ! i # drop (Suc i) path"
  by (simp add: Cons_nth_drop_Suc)

lemma colon_params_drop:
  "colon_params (drop i path) = map (name_at path) (filter (colon_at path) [i..<length path])"
proof (induction "length path - i" arbitrary: i)
  case 0
  then show ?case by simp
next
  case (Suc n)
  then have i: "i < length path" and ih: "colon_params (drop (Suc i) path)
      = map (name_at path) (filter (colon_at path) [Suc i..<length path])"
    by auto
  show ?case
    using i ih
    by (simp add: drop_step upt_conv_Cons colon_params_Cons colon_at_def name_at_def
        del: colon_params.simps)
qed

lemma dropWhile_name:
  "dropWhile is_word (drop (Suc i) path) = drop (Suc i + length (name_at path i)) path"
  by (simp add: name_at_def dropWhile_eq_drop add.commute)

lemma brace_at_scan:
  assumes "i < length path"
  shows "brace_at path i \<longleftrightarrow>
     (path ! i = CHR ''{'' \<and> takeWhile is_word (drop (Suc i) path) \<noteq> []
      \<and> dropWhile is_word (drop (Suc i) path) \<noteq> []
      \<and> hd (dropWhile is_word (drop (Suc i) path)) = CHR ''}'')"
  using assms
  by (auto simp: brace_at_def dropWhile_name hd_drop_conv_nth simp flip: name_at_def)

lemma brace_params_drop:
  "brace_params (drop i path) = map (name_at path) (filter (brace_at path) [i..<length path])"
proof (induction "length path - i" arbitrary: i)
  case 0
  then show ?case by simp
next
  case (Suc n)
  then have i: "i < length path" and ih: "brace_params (drop (Suc i) path)
      = map (name_at path) (filter (brace_at path) [Suc i..<length path])"
    by auto
  have "brace_params (drop i path)
          = (if brace_at path i then [name_at path i] else []) @ brace_params (drop (Suc i) path)"
    using i brace_at_scan [OF i]
    by (simp add: drop_step brace_params_Cons name_at_def del: brace_params.simps)
  with i ih show ?case
    by (simp add: upt_conv_Cons)
qed

lemma filter_either:
  fixes xs :: "nat list"
  shows "sorted_wrt (<) xs \<Longrightarrow> (\<And>x. \<not> (P x \<and> Q x)) \<Longrightarrow>
   list_all (\<lambda>i. list_all (\<lambda>j. i < j) (filter Q xs)) (filter P xs) \<Longrightarrow>
     filter (\<lambda>x. P x \<or> Q x) xs = filter P xs @ filter Q xs"
proof (induction xs)
  case Nil
  then show ?case by simp
next
  case (Cons x xs)
  have rest: "list_all (\<lambda>i. list_all (\<lambda>j. i < j) (filter Q xs)) (filter P xs)"
    using Cons.prems(3) by (auto simp: list_all_iff)
  have ih: "filter (\<lambda>x. P x \<or> Q x) xs = filter P xs @ filter Q xs"
    using Cons.IH Cons.prems(1,2) rest by simp
  show ?case
  proof (cases "Q x")
    case False
    with ih show ?thesis by simp
  next
    case True
    then have np: "\<not> P x" using Cons.prems(2) by blast
    have "filter P xs = []"
    proof (rule ccontr)
      assume "filter P xs \<noteq> []"
      then obtain y where y: "y \<in> set xs" "P y" by (auto simp: filter_empty_conv)
      with True Cons.prems(3) have "y < x" by (auto simp: list_all_iff)
      moreover from y Cons.prems(1) have "x < y" by auto
      ultimately show False by simp
    qed
    with ih True np show ?thesis by simp
  qed
qed

lemma not_both: "\<not> (colon_at path i \<and> brace_at path i)"
  by (auto simp: colon_at_def brace_at_def)

text \<open>
  C3, as the code has it. For every path, \<open>parseRouteParams\<close> returns the names of the
  occurrences in colon notation, from left to right, followed by the names of the
  occurrences in brace notation, from left to right; each occurrence gives one entry. When
  every colon occurrence stands before every brace occurrence, in particular when the path
  uses one notation only, these are the names of all occurrences from left to right.
\<close>

theorem parseRouteParams_colon_then_brace:
  "parseRouteParams path
     = map (name_at path) (colon_positions path) @ map (name_at path) (brace_positions path)
   \<and> (list_all (\<lambda>i. list_all (\<lambda>j. i < j) (brace_positions path)) (colon_positions path)
        \<longrightarrow> parseRouteParams path = names_left_to_right path)"
proof -
  have both: "parseRouteParams path
     = map (name_at path) (colon_positions path) @ map (name_at path) (brace_positions path)"
    using colon_params_drop [of 0 path] brace_params_drop [of 0 path]
    by (simp add: parseRouteParams_def colon_positions_def brace_positions_def)
  have "names_left_to_right path
          = map (name_at path) (colon_positions path) @ map (name_at path) (brace_positions path)"
    if "list_all (\<lambda>i. list_all (\<lambda>j. i < j) (brace_positions path)) (colon_positions path)"
    using filter_either [of "[0..<length path]" "colon_at path" "brace_at path"] that not_both
    by (simp add: names_left_to_right_def colon_positions_def brace_positions_def)
  with both show ?thesis by simp
qed

text \<open>
  The theorem at the path of the specification, \<open>/a/:id/b/{name}\<close>, whose colon
  occurrence (position 3) precedes its brace occurrence (position 9), and at two paths in
  colon notation only: one without leading slash, one with two names in a segment.
\<close>

theorem parseRouteParams_colon_then_brace_witness:
  "list_all (\<lambda>i. list_all (\<lambda>j. i < j) (brace_positions ''/a/:id/b/{name}''))
     (colon_positions ''/a/:id/b/{name}'')
   \<and> parseRouteParams ''/a/:id/b/{name}'' = [''id'', ''name'']
   \<and> names_left_to_right ''/a/:id/b/{name}'' = [''id'', ''name'']
   \<and> parseRouteParams ''users/:id'' = [''id'']
   \<and> names_left_to_right ''users/:id'' = [''id'']
   \<and> parseRouteParams ''/flights/:from-:to'' = [''from'', ''to'']
   \<and> names_left_to_right ''/flights/:from-:to'' = [''from'', ''to'']"
proof -
  have c1: "colon_positions ''/a/:id/b/{name}'' = [3]" by code_simp
  have b1: "brace_positions ''/a/:id/b/{name}'' = [9]" by code_simp
  have n1: "name_at ''/a/:id/b/{name}'' 3 = ''id''" "name_at ''/a/:id/b/{name}'' 9 = ''name''"
    by code_simp+
  have c2: "colon_positions ''users/:id'' = [6]" by code_simp
  have b2: "brace_positions ''users/:id'' = []" by code_simp
  have n2: "name_at ''users/:id'' 6 = ''id''" by code_simp
  have c3: "colon_positions ''/flights/:from-:to'' = [9, 15]" by code_simp
  have b3: "brace_positions ''/flights/:from-:to'' = []" by code_simp
  have n3: "name_at ''/flights/:from-:to'' 9 = ''from''" "name_at ''/flights/:from-:to'' 15 = ''to''"
    by code_simp+
  have o1: "list_all (\<lambda>i. list_all (\<lambda>j. i < j) (brace_positions ''/a/:id/b/{name}''))
              (colon_positions ''/a/:id/b/{name}'')"
    by (simp add: c1 b1)
  from parseRouteParams_colon_then_brace [of "''/a/:id/b/{name}''"] o1
  have 1: "parseRouteParams ''/a/:id/b/{name}'' = [''id'', ''name'']"
    "names_left_to_right ''/a/:id/b/{name}'' = [''id'', ''name'']"
    by (auto simp: c1 b1 n1)
  from parseRouteParams_colon_then_brace [of "''users/:id''"]
  have 2: "parseRouteParams ''users/:id'' = [''id'']"
    "names_left_to_right ''users/:id'' = [''id'']"
    by (auto simp: c2 b2 n2)
  from parseRouteParams_colon_then_brace [of "''/flights/:from-:to''"]
  have 3: "parseRouteParams ''/flights/:from-:to'' = [''from'', ''to'']"
    "names_left_to_right ''/flights/:from-:to'' = [''from'', ''to'']"
    by (auto simp: c3 b3 n3)
  from o1 1 2 3 show ?thesis by blast
qed

text \<open>
  C3 as stated fails where a brace segment comes before a colon segment: the path
  \<open>/a/{x}/b/:y\<close> has \<open>x\<close> before \<open>y\<close>, and \<open>parseRouteParams\<close> returns \<open>y\<close> before \<open>x\<close>.
\<close>

theorem parseRouteParams_order_counterexample:
  "names_left_to_right ''/a/{x}/b/:y'' = [''x'', ''y'']
   \<and> parseRouteParams ''/a/{x}/b/:y'' = [''y'', ''x'']
   \<and> parseRouteParams ''/a/{x}/b/:y'' \<noteq> [''x'', ''y'']"
proof -
  have 1: "names_left_to_right ''/a/{x}/b/:y'' = [''x'', ''y'']" by code_simp
  have 2: "parseRouteParams ''/a/{x}/b/:y'' = [''y'', ''x'']" by code_simp
  from 1 2 show ?thesis by simp
qed

section \<open>Properties of the value generator\<close>

lemma get_truthy: "truthy s \<Longrightarrow> \<exists>v. get s k = Inr v"
  by (cases s) simp_all

lemma example_or_default_total: "truthy s \<Longrightarrow> \<exists>v. example_or_default s lit = Inr v"
  using get_truthy [of s "''example''"] get_truthy [of s "''default''"]
  by (auto simp: example_or_default_def and_then_def)

lemma entries_truthy: "truthy p \<Longrightarrow> \<exists>es. entries p = Inr es"
  by (cases p) simp_all

lemma generate_total_aux:
  "(\<exists>v. generateDataFromSchema schema pv = Inr v)"
  "(truthy schema' \<longrightarrow> (\<exists>v. generateObjectFromSchema schema' pv' = Inr v))"
  "(\<exists>r. generateProperties es pv'' result = Inr r)"
proof (induction schema pv and schema' pv' and es pv'' result
    rule: generateDataFromSchema_generateObjectFromSchema_generateProperties.induct)
  case (1 schema paramValues)
  show ?case
  proof (cases "truthy schema")
    case False
    then show ?thesis by (simp add: generateDataFromSchema.simps)
  next
    case True
    then obtain ty where ty: "get schema ''type'' = Inr ty" using get_truthy by blast
    from True obtain items where items: "get schema ''items'' = Inr items" using get_truthy by blast
    from True obtain ref where ref: "get schema ''$ref'' = Inr ref" using get_truthy by blast
    show ?thesis
    proof (cases "typeof ty = ''string''")
      case False
      with True ty ref show ?thesis
        by (simp add: generateDataFromSchema.simps and_then_def)
    next
      case str: True
      consider (prim) "ty = JStr ''string'' \<or> ty = JStr ''number'' \<or> ty = JStr ''integer'' \<or> ty = JStr ''boolean''"
        | (arr) "ty = JStr ''array''" | (obj) "ty = JStr ''object''"
        | (other) "ty \<noteq> JStr ''string''" "ty \<noteq> JStr ''number''" "ty \<noteq> JStr ''integer''"
            "ty \<noteq> JStr ''boolean''" "ty \<noteq> JStr ''array''" "ty \<noteq> JStr ''object''"
        by blast
      then show ?thesis
      proof cases
        case prim
        with True ty str example_or_default_total [OF True] show ?thesis
          by (auto simp: generateDataFromSchema.simps and_then_def)
      next
        case arr
        show ?thesis
        proof (cases "truthy items")
          case False
          with True ty str arr items show ?thesis
            by (simp add: generateDataFromSchema.simps and_then_def)
        next
          case it: True
          from "1.IH"(1) [OF _ ty str _ _ _ _ items it] True arr
          obtain v where "generateDataFromSchema items paramValues = Inr v" by auto
          with True ty str arr items it show ?thesis
            by (simp add: generateDataFromSchema.simps and_then_def)
        qed
      next
        case obj
        from "1.IH"(2) [OF _ ty str] True obj
        obtain v where "generateObjectFromSchema schema paramValues = Inr v" by auto
        with True ty str obj show ?thesis
          by (simp add: generateDataFromSchema.simps and_then_def)
      next
        case other
        with True ty str show ?thesis
          by (simp add: generateDataFromSchema.simps and_then_def)
      qed
    qed
  qed
next
  case (2 schema paramValues)
  show ?case
  proof
    assume t: "truthy schema"
    then obtain props where props: "get schema ''properties'' = Inr props" using get_truthy by blast
    show "\<exists>v. generateObjectFromSchema schema paramValues = Inr v"
    proof (cases "truthy props")
      case False
      with props show ?thesis by (simp add: generateObjectFromSchema.simps and_then_def)
    next
      case True
      then obtain es where es: "entries props = Inr es" using entries_truthy by blast
      from "2.IH" [OF props _ es] True
      obtain r where "generateProperties es paramValues [] = Inr r" by auto
      with props True es show ?thesis
        by (simp add: generateObjectFromSchema.simps and_then_def)
    qed
  qed
next
  case (3 paramValues result)
  show ?case by simp
next
  case (4 propName propSchema rest paramValues result)
  show ?case
  proof (cases "provided paramValues propName")
    case None
    from "4.IH"(1) [OF None] obtain v where v: "generateDataFromSchema propSchema paramValues = Inr v"
      by auto
    from "4.IH"(2) [OF None v] None v show ?thesis by (simp add: and_then_def)
  next
    case (Some v)
    from "4.IH"(3) [OF Some] Some show ?thesis by simp
  qed
qed


lemma generateDataFromSchema_total: "\<exists>v. generateDataFromSchema schema pv = Inr v"
  by (rule generate_total_aux(1))

lemma generate_no_string_type:
  "typeof (lookup fs ''type'') \<noteq> ''string'' \<Longrightarrow>
     generateDataFromSchema (JObj fs) paramValues = Inr (JObj [])"
  by (simp add: generateDataFromSchema.simps and_then_def)

lemma generate_unknown_type:
  "lookup fs ''type'' = JStr t \<Longrightarrow>
   t \<notin> set [''string'', ''number'', ''integer'', ''boolean'', ''array'', ''object''] \<Longrightarrow>
     generateDataFromSchema (JObj fs) paramValues = Inr JNull"
  by (simp add: generateDataFromSchema.simps and_then_def)

text \<open>
  C5, as the code has it. \<open>generateDataFromSchema\<close> returns a value for every schema and
  never throws. For a node whose \<open>type\<close> is missing or is not a string, a \<open>$ref\<close> node among
  them, it returns the empty object. For a node whose \<open>type\<close> is a string other than
  \<open>string\<close>, \<open>number\<close>, \<open>integer\<close>, \<open>boolean\<close>, \<open>array\<close> and \<open>object\<close> it returns \<open>null\<close>.
\<close>

theorem generateDataFromSchema_fallbacks:
  "(\<exists>v. generateDataFromSchema schema paramValues = Inr v)
   \<and> (typeof (lookup fs ''type'') \<noteq> ''string''
        \<longrightarrow> generateDataFromSchema (JObj fs) paramValues = Inr (JObj []))
   \<and> (lookup fs ''type'' = JStr t
        \<and> t \<notin> set [''string'', ''number'', ''integer'', ''boolean'', ''array'', ''object'']
        \<longrightarrow> generateDataFromSchema (JObj fs) paramValues = Inr JNull)"
  using generateDataFromSchema_total [of schema paramValues]
    generate_no_string_type [of fs paramValues] generate_unknown_type [of fs t paramValues]
  by blast

text \<open>
  The theorem at a node without \<open>type\<close>, at a \<open>$ref\<close> node and at a node of the unknown
  type \<open>file\<close>.
\<close>

theorem generateDataFromSchema_fallbacks_witness:
  "generateDataFromSchema (JObj [(''description'', JStr ''no type'')]) None = Inr (JObj [])
   \<and> generateDataFromSchema (JObj [(''$ref'', JStr ''#/definitions/User'')]) None = Inr (JObj [])
   \<and> generateDataFromSchema (JObj [(''type'', JStr ''file'')]) None = Inr JNull"
  using generateDataFromSchema_fallbacks [of JNull None "[(''description'', JStr ''no type'')]" "''x''"]
    generateDataFromSchema_fallbacks [of JNull None "[(''$ref'', JStr ''#/definitions/User'')]" "''x''"]
    generateDataFromSchema_fallbacks [of JNull None "[(''type'', JStr ''file'')]" "''file''"]
  by (simp add: lookup_def)

text \<open>
  C5 as stated fails at a node of an unknown type: the \<open>default\<close> arm of the \<open>switch\<close>
  returns \<open>null\<close>, not the empty object.
\<close>

theorem generateDataFromSchema_unknown_type_counterexample:
  "generateDataFromSchema (JObj [(''type'', JStr ''file'')]) None = Inr JNull
   \<and> generateDataFromSchema (JObj [(''type'', JStr ''file'')]) None \<noteq> Inr (JObj [])"
  by (simp add: generateDataFromSchema.simps and_then_def lookup_def)

text \<open>
  C4 at nodes whose example is falsy. \<open>schema.example || schema.default || literal\<close> skips
  an example that is \<open>false\<close>, \<open>0\<close> or the empty string: the boolean node with example
  \<open>false\<close> yields \<open>true\<close>, the integer node with example \<open>0\<close> yields \<open>123\<close>, and the string
  node with the empty example yields its default.
\<close>

theorem generateDataFromSchema_falsy_example:
  "generateDataFromSchema (JObj [(''type'', JStr ''boolean''), (''example'', JBool False)]) None
     = Inr (JBool True)
   \<and> generateDataFromSchema (JObj [(''type'', JStr ''integer''), (''example'', JNum 0)]) None
     = Inr (JNum 123)
   \<and> generateDataFromSchema
       (JObj [(''type'', JStr ''string''), (''example'', JStr []), (''default'', JStr ''d'')]) None
     = Inr (JStr ''d'')"
  by (simp add: generateDataFromSchema.simps example_or_default_def and_then_def js_or_def
      lookup_def)

section \<open>Properties of the request synthesizer\<close>

lemma place_map_of: "k \<notin> fst ` set fs \<Longrightarrow> map_of (place fs k v) = (map_of fs)(k \<mapsto> v)"
proof (induction fs)
  case Nil
  then show ?case by simp
next
  case (Cons p ps)
  then show ?case by (cases p) (auto simp: fun_eq_iff)
qed

lemma replace_map_of:
  "k \<in> fst ` set fs \<Longrightarrow>
     map_of (map (\<lambda>p. if fst p = k then (k, v) else p) fs) = (map_of fs)(k \<mapsto> v)"
proof (induction fs)
  case Nil
  then show ?case by simp
next
  case (Cons p ps)
  show ?case
  proof (cases "k \<in> fst ` set ps")
    case True
    with Cons.IH show ?thesis by (cases p) (auto simp: fun_eq_iff)
  next
    case False
    then have "map (\<lambda>p. if fst p = k then (k, v) else p) ps = ps"
      by (induction ps) auto
    with Cons.prems False show ?thesis by (cases p) (auto simp: fun_eq_iff)
  qed
qed

lemma put_own_map_of: "map_of (put_own fs k v) = (map_of fs)(k \<mapsto> v)"
  by (simp add: put_own_def place_map_of replace_map_of)

lemma assign_built_other:
  "k \<noteq> ''__proto__'' \<Longrightarrow>
     map_of (fst (assign_built ob k' v)) k = (if k' = k then Some v else map_of (fst ob) k)"
  by (auto simp: assign_built_def put_own_map_of)

lemma fold_assign_built_other:
  "k \<noteq> ''__proto__'' \<Longrightarrow>
   map_of (fst (fold (\<lambda>p body. assign_built body (n p) (g p)) ps ob)) k
     = (map_of (fst ob) ++ map_of (rev (map (\<lambda>p. (n p, g p)) ps))) k"
proof (induction ps arbitrary: ob)
  case Nil
  then show ?case by simp
next
  case (Cons p ps)
  from Cons.IH [OF Cons.prems, of "assign_built ob (n p) (g p)"] Cons.prems
  show ?case
    by (simp add: assign_built_other map_add_def split: option.splits)
qed

lemma place_keys: "map fst (place fs k v) \<in> {xs. set xs = insert k (fst ` set fs)}"
  by (induction fs) auto

lemma place_distinct:
  "k \<notin> fst ` set fs \<Longrightarrow> distinct (map fst fs) \<Longrightarrow> distinct (map fst (place fs k v))"
proof (induction fs)
  case Nil
  then show ?case by simp
next
  case (Cons p ps)
  then show ?case using place_keys [of ps k v] by auto
qed

lemma replace_keys: "map fst (map (\<lambda>p. if fst p = k then (k, v) else p) fs) = map fst fs"
  by (induction fs) auto

lemma put_own_distinct: "distinct (map fst fs) \<Longrightarrow> distinct (map fst (put_own fs k v))"
  using replace_keys [of k v fs]
  by (simp add: put_own_def place_distinct del: map_map)

lemma assign_built_distinct:
  "distinct (map fst (fst ob)) \<Longrightarrow> distinct (map fst (fst (assign_built ob k v)))"
  by (simp add: assign_built_def put_own_distinct)

lemma fold_assign_built_distinct:
  "distinct (map fst (fst ob)) \<Longrightarrow>
     distinct (map fst (fst (fold (\<lambda>p body. assign_built body (n p) (g p)) ps ob)))"
  by (induction ps arbitrary: ob) (simp_all add: assign_built_distinct)

text \<open>
  C6, as the code has it. With no body parameter the body is \<open>null\<close> and nothing is
  attached. With body parameters of which the first declares a schema, the body is what
  \<open>generateDataFromSchema\<close> gives for that schema and \<open>config.paramValues\<close>. With body
  parameters of which the first declares none, the body is an object whose own properties
  come each once and which has, for every name other than \<open>__proto__\<close>, an own property
  of that name exactly when a body parameter has it, with the value of
  \<open>getParameterValue\<close> for the last body parameter of that name. The request
  carries a body only if the body is truthy and the method is POST, PUT or PATCH, and it
  carries the body whenever both hold.
\<close>

theorem buildRequestBody_cases:
  "(filter (\<lambda>p. p_in p = InBody) (e_parameters endpoint) = []
      \<longrightarrow> buildRequestBody endpoint config = Inr JNull
          \<and> a_data (axiosConfig endpoint config JNull) = JUndefined)
   \<and> (filter (\<lambda>p. p_in p = InBody) (e_parameters endpoint) = first # others
        \<and> truthy (p_schema first)
      \<longrightarrow> buildRequestBody endpoint config
            = generateDataFromSchema (p_schema first) (c_paramValues config))
   \<and> (filter (\<lambda>p. p_in p = InBody) (e_parameters endpoint) = first # others
        \<and> \<not> truthy (p_schema first)
      \<longrightarrow> (\<exists>body. buildRequestBody endpoint config = Inr (JObj body)
            \<and> distinct (map fst body)
            \<and> (\<forall>k. k \<noteq> ''__proto__'' \<longrightarrow>
                   map_of body k
                     = map_of (rev (map (\<lambda>p. (p_name p, getParameterValue p config))
                         (first # others))) k)))
   \<and> (a_data (axiosConfig endpoint config data) \<noteq> JUndefined
      \<longrightarrow> a_data (axiosConfig endpoint config data) = data \<and> truthy data
          \<and> e_method endpoint \<in> {POST, PUT, PATCH})
   \<and> (truthy data \<and> e_method endpoint \<in> {POST, PUT, PATCH}
      \<longrightarrow> a_data (axiosConfig endpoint config data) = data)"
proof (intro conjI impI)
  assume "filter (\<lambda>p. p_in p = InBody) (e_parameters endpoint) = []"
  then show "buildRequestBody endpoint config = Inr JNull"
    by (simp add: buildRequestBody_def)
next
  show "a_data (axiosConfig endpoint config JNull) = JUndefined"
    by (simp add: axiosConfig_def)
next
  assume "filter (\<lambda>p. p_in p = InBody) (e_parameters endpoint) = first # others
            \<and> truthy (p_schema first)"
  then show "buildRequestBody endpoint config
               = generateDataFromSchema (p_schema first) (c_paramValues config)"
    by (simp add: buildRequestBody_def)
next
  assume a: "filter (\<lambda>p. p_in p = InBody) (e_parameters endpoint) = first # others
            \<and> \<not> truthy (p_schema first)"
  let ?body = "fst (fold (\<lambda>param body.
                 assign_built body (p_name param) (getParameterValue param config))
                 (first # others) ([], True))"
  have 1: "buildRequestBody endpoint config = Inr (JObj ?body)"
    using a by (simp add: buildRequestBody_def)
  have 2: "\<forall>k. k \<noteq> ''__proto__'' \<longrightarrow>
             map_of ?body k = map_of (rev (map (\<lambda>p. (p_name p, getParameterValue p config))
               (first # others))) k"
    using fold_assign_built_other
      [of _ p_name "\<lambda>p. getParameterValue p config" "first # others" "([], True)"]
    by simp
  have 3: "distinct (map fst ?body)"
    by (rule fold_assign_built_distinct) simp
  from 1 2 3 show "\<exists>body. buildRequestBody endpoint config = Inr (JObj body)
            \<and> distinct (map fst body)
            \<and> (\<forall>k. k \<noteq> ''__proto__'' \<longrightarrow>
                   map_of body k
                     = map_of (rev (map (\<lambda>p. (p_name p, getParameterValue p config))
                         (first # others))) k)"
    by blast
next
  assume a: "a_data (axiosConfig endpoint config data) \<noteq> JUndefined"
  then show "a_data (axiosConfig endpoint config data) = data"
    by (simp add: axiosConfig_def split: if_splits)
  from a show "truthy data"
    by (simp add: axiosConfig_def split: if_splits)
  from a show "e_method endpoint \<in> {POST, PUT, PATCH}"
    by (cases "e_method endpoint") (simp_all add: axiosConfig_def split: if_splits)
next
  assume "truthy data \<and> e_method endpoint \<in> {POST, PUT, PATCH}"
  then show "a_data (axiosConfig endpoint config data) = data"
    by (auto simp: axiosConfig_def)
qed


text \<open>
  The theorem at an endpoint without body parameters, at one whose body parameter has a
  schema, at one with the body parameters \<open>b\<close>, \<open>1\<close> and \<open>__proto__\<close> without schema (the
  object enumerates the integer key first: \<open>{'1': 123, b: 'test-b'}\<close>), and at a POST and a
  GET request for the same body.
\<close>

theorem buildRequestBody_cases_witness:
  "buildRequestBody (plain_endpoint GET ''/users'' [plain_param ''page'' ''number'' InQuery] [])
       plain_config = Inr JNull
   \<and> buildRequestBody
       (plain_endpoint POST ''/users''
          [(plain_param ''user'' ''object'' InBody)
             \<lparr> p_schema := JObj [(''type'', JStr ''object''),
                 (''properties'', JObj [(''x'', JObj [(''type'', JStr ''string''),
                                                     (''example'', JStr ''e'')])])] \<rparr>] [])
       plain_config = Inr (JObj [(''x'', JStr ''e'')])
   \<and> (\<exists>body. buildRequestBody
         (plain_endpoint POST ''/users''
            [plain_param ''b'' ''string'' InBody, plain_param ''1'' ''number'' InBody,
             plain_param ''__proto__'' ''string'' InBody] [])
         plain_config = Inr (JObj body)
       \<and> distinct (map fst body)
       \<and> map_of body ''b'' = Some (JStr ''test-b'')
       \<and> map_of body ''1'' = Some (JNum 123)
       \<and> map_of body ''a'' = None)
   \<and> buildRequestBody
       (plain_endpoint POST ''/users''
          [plain_param ''b'' ''string'' InBody, plain_param ''1'' ''number'' InBody,
           plain_param ''__proto__'' ''string'' InBody] [])
       plain_config = Inr (JObj [(''1'', JNum 123), (''b'', JStr ''test-b'')])
   \<and> a_data (axiosConfig (plain_endpoint POST ''/users'' [] []) plain_config
         (JObj [(''x'', JStr ''e'')])) = JObj [(''x'', JStr ''e'')]
   \<and> a_data (axiosConfig (plain_endpoint GET ''/users'' [] []) plain_config
         (JObj [(''x'', JStr ''e'')])) = JUndefined"
proof -
  let ?schema = "JObj [(''type'', JStr ''object''),
                 (''properties'', JObj [(''x'', JObj [(''type'', JStr ''string''),
                                                     (''example'', JStr ''e'')])])]"
  let ?user = "(plain_param ''user'' ''object'' InBody) \<lparr> p_schema := ?schema \<rparr>"
  let ?x = "JObj [(''x'', JStr ''e'')]"
  let ?b1 = "plain_endpoint POST ''/users''
            [plain_param ''b'' ''string'' InBody, plain_param ''1'' ''number'' InBody,
             plain_param ''__proto__'' ''string'' InBody] []"
  have gen: "generateDataFromSchema ?schema None = Inr ?x"
    by code_simp
  have 1: "buildRequestBody
             (plain_endpoint GET ''/users'' [plain_param ''page'' ''number'' InQuery] [])
             plain_config = Inr JNull"
    using buildRequestBody_cases
      [of "plain_endpoint GET ''/users'' [plain_param ''page'' ''number'' InQuery] []"
          plain_config]
    by (simp add: plain_endpoint_def plain_param_def)
  have 2: "buildRequestBody (plain_endpoint POST ''/users'' [?user] []) plain_config = Inr ?x"
    using buildRequestBody_cases
      [of "plain_endpoint POST ''/users'' [?user] []" plain_config ?user "[]"] gen
    by (simp add: plain_endpoint_def plain_param_def plain_config_def)
  have 3: "\<exists>body. buildRequestBody ?b1 plain_config = Inr (JObj body)
       \<and> distinct (map fst body)
       \<and> map_of body ''b'' = Some (JStr ''test-b'')
       \<and> map_of body ''1'' = Some (JNum 123)
       \<and> map_of body ''a'' = None"
  proof -
    let ?ps = "[plain_param ''b'' ''string'' InBody, plain_param ''1'' ''number'' InBody,
                plain_param ''__proto__'' ''string'' InBody]"
    have "filter (\<lambda>p. p_in p = InBody) (e_parameters ?b1) = hd ?ps # tl ?ps
            \<and> \<not> truthy (p_schema (hd ?ps))"
      by (simp add: plain_endpoint_def plain_param_def)
    with buildRequestBody_cases [of ?b1 plain_config "hd ?ps" "tl ?ps" JNull]
    obtain body where body: "buildRequestBody ?b1 plain_config = Inr (JObj body)"
      "distinct (map fst body)"
      "\<forall>k. k \<noteq> ''__proto__'' \<longrightarrow>
         map_of body k = map_of (rev (map (\<lambda>p. (p_name p, getParameterValue p plain_config))
           (hd ?ps # tl ?ps))) k"
      by blast
    have v: "map_of (rev (map (\<lambda>p. (p_name p, getParameterValue p plain_config))
               (hd ?ps # tl ?ps)))
             = [''b'' \<mapsto> JStr ''test-b'', ''1'' \<mapsto> JNum 123,
                ''__proto__'' \<mapsto> JStr ''test-__proto__'']"
      by (simp add: plain_param_def plain_config_def getParameterValue_def provided_def
          js_or_def fun_eq_iff)
    from body(3) have "map_of body ''b'' = Some (JStr ''test-b'')"
      "map_of body ''1'' = Some (JNum 123)" "map_of body ''a'' = None"
      unfolding v by simp_all
    with body(1,2) show ?thesis by blast
  qed
  have 4: "buildRequestBody ?b1 plain_config
             = Inr (JObj [(''1'', JNum 123), (''b'', JStr ''test-b'')])"
    by code_simp
  have 5: "a_data (axiosConfig (plain_endpoint POST ''/users'' [] []) plain_config ?x) = ?x"
    using buildRequestBody_cases
      [of "plain_endpoint POST ''/users'' [] []" plain_config _ _ ?x]
    by (simp add: plain_endpoint_def)
  have 6: "a_data (axiosConfig (plain_endpoint GET ''/users'' [] []) plain_config ?x)
             = JUndefined"
    using buildRequestBody_cases
      [of "plain_endpoint GET ''/users'' [] []" plain_config _ _ ?x]
    by (auto simp: plain_endpoint_def)
  from 1 2 3 4 5 6 show ?thesis by blast
qed

text \<open>
  C6 as stated fails where a body parameter other than the first declares the schema:
  \<open>buildRequestBody\<close> reads \<open>bodyParams[0].schema\<close> only, and builds the object of
  parameter values instead of the value generated from the schema.
\<close>

theorem buildRequestBody_first_schema_counterexample:
  "buildRequestBody
     (plain_endpoint POST ''/users''
        [plain_param ''a'' ''string'' InBody,
         (plain_param ''b'' ''object'' InBody) \<lparr> p_schema := JObj [(''type'', JStr ''string'')] \<rparr>]
        [])
     plain_config = Inr (JObj [(''a'', JStr ''test-a''), (''b'', JObj [])])
   \<and> generateDataFromSchema (JObj [(''type'', JStr ''string'')]) (c_paramValues plain_config)
       = Inr (JStr ''test-string'')
   \<and> buildRequestBody
     (plain_endpoint POST ''/users''
        [plain_param ''a'' ''string'' InBody,
         (plain_param ''b'' ''object'' InBody) \<lparr> p_schema := JObj [(''type'', JStr ''string'')] \<rparr>]
        [])
     plain_config
     \<noteq> generateDataFromSchema (JObj [(''type'', JStr ''string'')]) (c_paramValues plain_config)"
proof -
  have 1: "buildRequestBody
     (plain_endpoint POST ''/users''
        [plain_param ''a'' ''string'' InBody,
         (plain_param ''b'' ''object'' InBody) \<lparr> p_schema := JObj [(''type'', JStr ''string'')] \<rparr>]
        [])
     plain_config = Inr (JObj [(''a'', JStr ''test-a''), (''b'', JObj [])])"
    by code_simp
  have 2: "generateDataFromSchema (JObj [(''type'', JStr ''string'')]) (c_paramValues plain_config)
       = Inr (JStr ''test-string'')"
    by code_simp
  from 1 2 show ?thesis by simp
qed

text \<open>
  C7 at parameters without override and without truthy example: \<open>getParameterValue\<close>
  never reads \<open>param.default\<close>, so the number parameter with default \<open>10\<close> gets \<open>123\<close> and
  the string parameter with default \<open>d\<close> gets \<open>test-q\<close>; and \<open>param.example || literal\<close>
  skips the example \<open>false\<close>.
\<close>

theorem getParameterValue_ignores_default:
  "getParameterValue ((plain_param ''limit'' ''number'' InQuery) \<lparr> p_default := JNum 10 \<rparr>)
     plain_config = JNum 123
   \<and> getParameterValue ((plain_param ''q'' ''string'' InQuery) \<lparr> p_default := JStr ''d'' \<rparr>)
     plain_config = JStr ''test-q''
   \<and> getParameterValue ((plain_param ''all'' ''boolean'' InQuery) \<lparr> p_example := JBool False \<rparr>)
     plain_config = JBool True"
  by (simp add: getParameterValue_def plain_param_def plain_config_def provided_def js_or_def)

section \<open>Properties of the validators\<close>

text \<open>
  C8 at a required parameter whose name every object inherits. \<open>params[param.name]\<close>
  reads the inherited member, so with nothing supplied the required parameter
  \<open>constructor\<close> is not reported missing; its inherited value, the function \<open>Object\<close>, is
  then type-checked and reported as a mistyped string. A required parameter \<open>toString\<close>
  of a type that is not checked passes with nothing supplied.
\<close>

theorem validateRequestParams_inherited_name:
  "validateRequestParams
     (plain_endpoint GET ''/items''
        [(plain_param ''constructor'' ''string'' InQuery) \<lparr> p_required := True \<rparr>] [])
     []
   = \<lparr> v_endpoint = plain_endpoint GET ''/items''
         [(plain_param ''constructor'' ''string'' InQuery) \<lparr> p_required := True \<rparr>] [],
       v_valid = False,
       v_errors = Some [JObj [(''message'',
         JStr ''Parameter constructor should be a string, got function'')]] \<rparr>
   \<and> validateRequestParams
     (plain_endpoint GET ''/items''
        [(plain_param ''toString'' ''file'' InQuery) \<lparr> p_required := True \<rparr>] [])
     []
   = \<lparr> v_endpoint = plain_endpoint GET ''/items''
         [(plain_param ''toString'' ''file'' InQuery) \<lparr> p_required := True \<rparr>] [],
       v_valid = True, v_errors = None \<rparr>"
  by (simp add: validateRequestParams_def check_type_def type_violation_def lookup_def
      inherited_def prototype_methods_def plain_endpoint_def plain_param_def)

lemma find_None_status:
  "statusCode \<notin> r_statusCode ` set rs \<Longrightarrow>
     find (\<lambda>r. r_statusCode r = statusCode) rs = None"
  by (induction rs) auto

lemma validateResponseSchema_returns:
  "\<exists>r. validateResponseSchema env endpoint statusCode body = Inr r"
  by (simp add: validateResponseSchema_def split: option.splits sum.splits)

text \<open>
  C9. \<open>validateResponseSchema\<close> returns a valid result when no declared response has the
  status code, and when the declared response for it has no schema. When the compiler
  throws on the declared schema, it returns an invalid result with exactly one violation,
  whose message is that of the thrown error. It returns a result in every case: no throw
  of the compiler or of the validating function leaves it.
\<close>

theorem validateResponseSchema_trivial_or_malformed:
  "(statusCode \<notin> r_statusCode ` set (e_responses endpoint)
      \<longrightarrow> validateResponseSchema env endpoint (Some statusCode) body
            = Inr \<lparr> v_endpoint = endpoint, v_valid = True, v_errors = None \<rparr>)
   \<and> (find (\<lambda>r. r_statusCode r = statusCode) (e_responses endpoint) = Some declared
        \<and> \<not> truthy (r_schema declared)
      \<longrightarrow> validateResponseSchema env endpoint (Some statusCode) body
            = Inr \<lparr> v_endpoint = endpoint, v_valid = True, v_errors = None \<rparr>)
   \<and> (find (\<lambda>r. r_statusCode r = statusCode) (e_responses endpoint) = Some declared
        \<and> truthy (r_schema declared)
        \<and> ajv_compile env (r_schema declared) = Inl error
      \<longrightarrow> validateResponseSchema env endpoint (Some statusCode) body
            = Inr \<lparr> v_endpoint = endpoint, v_valid = False,
                    v_errors = Some [JObj [(''message'', JStr (error_message error))]] \<rparr>)
   \<and> (\<exists>result. validateResponseSchema env endpoint (Some statusCode) body = Inr result)"
proof (intro conjI impI)
  assume "statusCode \<notin> r_statusCode ` set (e_responses endpoint)"
  then show "validateResponseSchema env endpoint (Some statusCode) body
            = Inr \<lparr> v_endpoint = endpoint, v_valid = True, v_errors = None \<rparr>"
    by (simp add: validateResponseSchema_def find_None_status)
next
  assume "find (\<lambda>r. r_statusCode r = statusCode) (e_responses endpoint) = Some declared
        \<and> \<not> truthy (r_schema declared)"
  then show "validateResponseSchema env endpoint (Some statusCode) body
            = Inr \<lparr> v_endpoint = endpoint, v_valid = True, v_errors = None \<rparr>"
    by (simp add: validateResponseSchema_def)
next
  assume "find (\<lambda>r. r_statusCode r = statusCode) (e_responses endpoint) = Some declared
        \<and> truthy (r_schema declared)
        \<and> ajv_compile env (r_schema declared) = Inl error"
  then show "validateResponseSchema env endpoint (Some statusCode) body
            = Inr \<lparr> v_endpoint = endpoint, v_valid = False,
                    v_errors = Some [JObj [(''message'', JStr (error_message error))]] \<rparr>"
    by (simp add: validateResponseSchema_def and_then_def)
next
  show "\<exists>result. validateResponseSchema env endpoint (Some statusCode) body = Inr result"
    by (rule validateResponseSchema_returns)
qed

text \<open>
  The theorem at a status code that is not declared, at a declared response without
  schema, and at a declared schema on which the compiler throws.
\<close>

theorem validateResponseSchema_trivial_or_malformed_witness:
  "validateResponseSchema (answering \<lparr> resp_status = 404, resp_data = JNull \<rparr> rejecting)
     (plain_endpoint GET ''/items'' [] [plain_response 200])
     (Some 404) (JStr ''not found'')
   = Inr \<lparr> v_endpoint = plain_endpoint GET ''/items'' [] [plain_response 200],
           v_valid = True, v_errors = None \<rparr>
   \<and> validateResponseSchema (answering \<lparr> resp_status = 200, resp_data = JNull \<rparr> rejecting)
     (plain_endpoint GET ''/items'' [] [plain_response 200])
     (Some 200) (JStr ''ok'')
   = Inr \<lparr> v_endpoint = plain_endpoint GET ''/items'' [] [plain_response 200],
           v_valid = True, v_errors = None \<rparr>
   \<and> validateResponseSchema (answering \<lparr> resp_status = 200, resp_data = JNull \<rparr> malformed)
     (plain_endpoint GET ''/items'' []
        [(plain_response 200) \<lparr> r_schema := JObj [(''type'', JStr ''objekt'')] \<rparr>])
     (Some 200) (JStr ''ok'')
   = Inr \<lparr> v_endpoint = plain_endpoint GET ''/items'' []
             [(plain_response 200) \<lparr> r_schema := JObj [(''type'', JStr ''objekt'')] \<rparr>],
           v_valid = False,
           v_errors = Some [JObj [(''message'', JStr ''schema is invalid'')]] \<rparr>"
proof -
  let ?plain = "plain_endpoint GET ''/items'' [] [plain_response 200]"
  let ?def = "(plain_response 200) \<lparr> r_schema := JObj [(''type'', JStr ''objekt'')] \<rparr>"
  let ?bad = "plain_endpoint GET ''/items'' [] [?def]"
  have 1: "validateResponseSchema (answering \<lparr> resp_status = 404, resp_data = JNull \<rparr> rejecting)
             ?plain (Some 404) (JStr ''not found'')
           = Inr \<lparr> v_endpoint = ?plain, v_valid = True, v_errors = None \<rparr>"
    using validateResponseSchema_trivial_or_malformed
      [of 404 ?plain "answering \<lparr> resp_status = 404, resp_data = JNull \<rparr> rejecting"
          "JStr ''not found''"]
    by (simp add: plain_endpoint_def plain_response_def)
  have 2: "validateResponseSchema (answering \<lparr> resp_status = 200, resp_data = JNull \<rparr> rejecting)
             ?plain (Some 200) (JStr ''ok'')
           = Inr \<lparr> v_endpoint = ?plain, v_valid = True, v_errors = None \<rparr>"
    using validateResponseSchema_trivial_or_malformed
      [of 200 ?plain "answering \<lparr> resp_status = 200, resp_data = JNull \<rparr> rejecting"
          "JStr ''ok''" "plain_response 200"]
    by (simp add: plain_endpoint_def plain_response_def)
  have 3: "validateResponseSchema (answering \<lparr> resp_status = 200, resp_data = JNull \<rparr> malformed)
             ?bad (Some 200) (JStr ''ok'')
           = Inr \<lparr> v_endpoint = ?bad, v_valid = False,
                   v_errors = Some [JObj [(''message'', JStr ''schema is invalid'')]] \<rparr>"
    using validateResponseSchema_trivial_or_malformed
      [of 200 ?bad "answering \<lparr> resp_status = 200, resp_data = JNull \<rparr> malformed"
          "JStr ''ok''" ?def "JsError ''schema is invalid''"]
    by (simp add: plain_endpoint_def plain_response_def answering_def malformed_def)
  from 1 2 3 show ?thesis by blast
qed

section \<open>Properties of the endpoint tester and the orchestrator\<close>

section \<open>Properties of the endpoint tester and the orchestrator\<close>

lemma buildRequestBody_total: "\<exists>data. buildRequestBody endpoint config = Inr data"
proof (cases "filter (\<lambda>p. p_in p = InBody) (e_parameters endpoint)")
  case Nil
  then show ?thesis by (simp add: buildRequestBody_def)
next
  case (Cons first others)
  then show ?thesis
    using generateDataFromSchema_total [of "p_schema first" "c_paramValues config"]
    by (auto simp: buildRequestBody_def)
qed

lemma responseResult_endpoint: "t_endpoint (responseResult endpoint response time) = endpoint"
  by (simp add: responseResult_def Let_def)

lemma testEndpoint_returns:
  "\<exists>result w'. testEndpoint env endpoint config w = (Inr result, w')
      \<and> t_endpoint result = endpoint"
proof -
  obtain data where data: "buildRequestBody endpoint config = Inr data"
    using buildRequestBody_total by blast
  obtain answer w' where ax: "axios env (axiosConfig endpoint config data) w = (answer, w')"
    by (cases "axios env (axiosConfig endpoint config data) w")
  show ?thesis
  proof (cases answer)
    case (Inl error)
    with data ax show ?thesis by (simp add: testEndpoint_def caught_def)
  next
    case (Inr reply)
    with data ax show ?thesis
      by (cases reply) (simp add: testEndpoint_def responseResult_endpoint)
  qed
qed

lemma testEndpoint_response:
  assumes "buildRequestBody endpoint config = Inr data"
    and "axios env (axiosConfig endpoint config data) w = (Inr (response, responseTime), w')"
  shows "testEndpoint env endpoint config w
           = (Inr (responseResult endpoint response responseTime), w')"
  using assms by (simp add: testEndpoint_def)

lemma expected_eq:
  "map r_statusCode (filter (\<lambda>r. r_statusCode r \<ge> 200 \<and> r_statusCode r < 300) rs)
     = filter (\<lambda>c. 200 \<le> c \<and> c < 300) (map r_statusCode rs)"
  by (induction rs) auto

text \<open>
  C1. Whenever the HTTP client answers the request of \<open>testEndpoint\<close> with a response,
  the result carries the observed status, and it is a success exactly when the observed
  status is one of the declared codes in [200, 300) if the endpoint declares any, and
  exactly when it is 200 if the endpoint declares none. A success has no error message; a
  failure has the message that names the expected codes, joined by \<open>or\<close>, and the observed
  status. (The first premise names the request body; \<open>buildRequestBody_total\<close> shows that
  there always is one.)
\<close>

theorem testEndpoint_success_classification:
  assumes "buildRequestBody endpoint config = Inr data"
    and "axios env (axiosConfig endpoint config data) w = (Inr (response, responseTime), w')"
  shows "\<exists>result. testEndpoint env endpoint config w = (Inr result, w')
      \<and> t_statusCode result = Some (resp_status response)
      \<and> (t_success result \<longleftrightarrow>
            (if declared_2xx endpoint \<noteq> [] then resp_status response \<in> set (declared_2xx endpoint)
             else resp_status response = 200))
      \<and> t_error result =
           (if t_success result then None
            else Some (''Expected status '' @
                   join '' or '' (map show_int
                     (if declared_2xx endpoint \<noteq> [] then declared_2xx endpoint else [200])) @
                   '', got '' @ show_int (resp_status response)))"
proof -
  have "testEndpoint env endpoint config w
          = (Inr (responseResult endpoint response responseTime), w')"
    using assms by (rule testEndpoint_response)
  then show ?thesis
    by (simp add: responseResult_def Let_def expected_eq declared_2xx_def)
qed

lemma test_loop_endpoints:
  "map t_endpoint (fst (test_loop env config endpoints results w))
     = map t_endpoint results @ endpoints"
proof (induction endpoints arbitrary: results w)
  case Nil
  then show ?case by simp
next
  case (Cons endpoint rest)
  obtain result w' where te: "testEndpoint env endpoint config w = (Inr result, w')"
    and ep: "t_endpoint result = endpoint"
    using testEndpoint_returns [of env endpoint config w] by auto
  obtain schemaResult where vr:
    "validateResponseSchema env endpoint (t_statusCode result) (t_responseBody result)
       = Inr schemaResult"
    using validateResponseSchema_returns
      [of env endpoint "t_statusCode result" "t_responseBody result"] by auto
  show ?case
    using te ep vr by (simp add: Cons.IH Let_def)
qed

lemma test_loop_split:
  "test_loop env config endpoints results w
     = (results @ fst (test_loop env config endpoints [] w),
        snd (test_loop env config endpoints [] w))"
proof (induction endpoints arbitrary: results w)
  case Nil
  then show ?case by simp
next
  case (Cons endpoint rest)
  obtain result w' where te: "testEndpoint env endpoint config w = (Inr result, w')"
    using testEndpoint_returns [of env endpoint config w] by auto
  obtain schemaResult where vr:
    "validateResponseSchema env endpoint (t_statusCode result) (t_responseBody result)
       = Inr schemaResult"
    using validateResponseSchema_returns
      [of env endpoint "t_statusCode result" "t_responseBody result"] by auto
  note ih = Cons.IH [of _ w']
  show ?case
    using te vr
    by (simp add: Let_def ih [of "results @ [result]"] ih [of "[result]"]
        ih [of "results @ [result\<lparr>t_success := False, t_error := e\<rparr>]" for e]
        ih [of "[result\<lparr>t_success := False, t_error := e\<rparr>]" for e])
qed

lemma testApiEndpoints_Cons:
  assumes te: "testEndpoint env endpoint config w = (Inr result, w')"
    and vr: "validateResponseSchema env endpoint (t_statusCode result) (t_responseBody result)
               = Inr schemaResult"
  shows "testApiEndpoints env (endpoint # rest) config w
     = ((if c_validateSchema config = Some True \<and> t_success result
            \<and> truthy (t_responseBody result) \<and> \<not> v_valid schemaResult
         then result \<lparr> t_success := False,
                t_error := Some (''Schema validation failed: '' @
                  JSON_stringify env (case v_errors schemaResult of
                      None \<Rightarrow> JUndefined
                    | Some errors \<Rightarrow> JArr errors)) \<rparr>
         else result) # fst (testApiEndpoints env rest config w'),
        snd (testApiEndpoints env rest config w'))"
  using te vr
  by (simp add: testApiEndpoints_def Let_def
      test_loop_split [of env config rest "[result]" w']
      test_loop_split [of env config rest "[result\<lparr>t_success := False, t_error := e\<rparr>]" w' for e])

text \<open>
  C2. The report of \<open>testApiEndpoints\<close> is built endpoint by endpoint. For the first
  endpoint of the list \<open>testEndpoint\<close> returns a result, whatever the HTTP client does, and
  the report starts with exactly one entry for it: that result, or, when schema validation
  is enabled, the result is a success with a truthy body and the validator rejects the body,
  that result downgraded to a failure. Then comes the report for the remaining endpoints,
  run in the world the first request left: they are processed whether the first endpoint
  passed, failed or threw. So the report has one entry per endpoint, and the endpoints of
  its entries are the input list in its order.
\<close>

theorem testApiEndpoints_one_result_per_endpoint:
  "testApiEndpoints env [] config w = ([], w)
   \<and> (\<exists>result w' schemaResult.
        testEndpoint env endpoint config w = (Inr result, w')
        \<and> validateResponseSchema env endpoint (t_statusCode result) (t_responseBody result)
            = Inr schemaResult
        \<and> testApiEndpoints env (endpoint # rest) config w
            = ((if c_validateSchema config = Some True \<and> t_success result
                   \<and> truthy (t_responseBody result) \<and> \<not> v_valid schemaResult
                then result \<lparr> t_success := False,
                       t_error := Some (''Schema validation failed: '' @
                         JSON_stringify env (case v_errors schemaResult of
                             None \<Rightarrow> JUndefined
                           | Some errors \<Rightarrow> JArr errors)) \<rparr>
                else result) # fst (testApiEndpoints env rest config w'),
               snd (testApiEndpoints env rest config w')))
   \<and> map t_endpoint (fst (testApiEndpoints env endpoints config w)) = endpoints
   \<and> length (fst (testApiEndpoints env endpoints config w)) = length endpoints"
proof -
  have nil: "testApiEndpoints env [] config w = ([], w)"
    by (simp add: testApiEndpoints_def)
  obtain result w' where te: "testEndpoint env endpoint config w = (Inr result, w')"
    using testEndpoint_returns [of env endpoint config w] by auto
  obtain schemaResult where vr:
    "validateResponseSchema env endpoint (t_statusCode result) (t_responseBody result)
       = Inr schemaResult"
    using validateResponseSchema_returns
      [of env endpoint "t_statusCode result" "t_responseBody result"] by auto
  note step = testApiEndpoints_Cons [OF te vr, of rest]
  have m: "map t_endpoint (fst (testApiEndpoints env endpoints config w)) = endpoints"
    by (simp add: testApiEndpoints_def test_loop_endpoints)
  have "length (fst (testApiEndpoints env endpoints config w))
          = length (map t_endpoint (fst (testApiEndpoints env endpoints config w)))"
    by simp
  with m have l: "length (fst (testApiEndpoints env endpoints config w)) = length endpoints"
    by metis
  from nil te vr step m l show ?thesis by blast
qed

text \<open>
  The theorem at two endpoints of which the first cannot be reached: the report has the
  failure of the first with the message of the transport error, then the success of the
  second, and two requests were made.
\<close>

theorem testApiEndpoints_one_result_per_endpoint_witness:
  "testApiEndpoints (flaky \<lparr> resp_status = 200, resp_data = JNull \<rparr>)
     [plain_endpoint GET ''/a'' [] [], plain_endpoint GET ''/b'' [] []] plain_config 0
   = ([\<lparr> t_endpoint = plain_endpoint GET ''/a'' [] [], t_success = False,
          t_statusCode = None, t_responseTime = None,
          t_error = Some ''connect ECONNREFUSED'', t_responseBody = JUndefined \<rparr>,
       \<lparr> t_endpoint = plain_endpoint GET ''/b'' [] [], t_success = True,
          t_statusCode = Some 200, t_responseTime = Some 12,
          t_error = None, t_responseBody = JNull \<rparr>], 2)"
proof -
  let ?env = "flaky \<lparr> resp_status = 200, resp_data = JNull \<rparr>"
  let ?a = "plain_endpoint GET ''/a'' [] []"
  let ?b = "plain_endpoint GET ''/b'' [] []"
  have ta: "testEndpoint ?env ?a plain_config 0
     = (Inr \<lparr> t_endpoint = ?a, t_success = False, t_statusCode = None, t_responseTime = None,
              t_error = Some ''connect ECONNREFUSED'', t_responseBody = JUndefined \<rparr>, Suc 0)"
    by (simp add: testEndpoint_def buildRequestBody_def flaky_def caught_def plain_endpoint_def)
  have tb: "testEndpoint ?env ?b plain_config (Suc 0)
     = (Inr \<lparr> t_endpoint = ?b, t_success = True, t_statusCode = Some 200,
              t_responseTime = Some 12, t_error = None, t_responseBody = JNull \<rparr>, Suc (Suc 0))"
    by (simp add: testEndpoint_def buildRequestBody_def flaky_def responseResult_def
        plain_endpoint_def)
  have two: "Suc (Suc 0) = 2" by simp
  have 2: "testApiEndpoints ?env [?b] plain_config (Suc 0)
     = ([\<lparr> t_endpoint = ?b, t_success = True, t_statusCode = Some 200,
              t_responseTime = Some 12, t_error = None, t_responseBody = JNull \<rparr>], Suc (Suc 0))"
    using testApiEndpoints_one_result_per_endpoint [of ?env plain_config "Suc 0" ?b "[]" "[]"]
      testApiEndpoints_one_result_per_endpoint [of ?env plain_config "Suc (Suc 0)" ?b "[]" "[]"]
      tb
    by auto
  from testApiEndpoints_one_result_per_endpoint [of ?env plain_config 0 ?a "[?b]" "[]"] ta 2
  show ?thesis by (auto simp: two simp del: One_nat_def)
qed

text \<open>
  C10. When the result of \<open>testEndpoint\<close> for an endpoint fails the test
  \<open>config.validateSchema && result.success && result.responseBody\<close>, in particular when
  its body is falsy (\<open>undefined\<close>, \<open>null\<close>, the empty string, 0, \<open>false\<close>), the report has
  this very result for the endpoint, whatever the schema compiler would say: the compiler
  of \<open>env\<close> is arbitrary. The rest of the report is the report for the remaining
  endpoints from the world the request left.
\<close>

theorem testApiEndpoints_schema_check_condition:
  assumes "testEndpoint env endpoint config w = (Inr result, w')"
    and "c_validateSchema config \<noteq> Some True \<or> \<not> t_success result
           \<or> \<not> truthy (t_responseBody result)"
  shows "fst (testApiEndpoints env (endpoint # rest) config w)
           = result # fst (testApiEndpoints env rest config w')"
  using assms
  by (auto simp: testApiEndpoints_def Let_def test_loop_split [of env config rest "[result]" w'])


text \<open>
  The theorem at the cases of the specification: declared codes 201 and 400 with observed
  201 (success) and observed 200 (failure, expected 201), and no declared 2xx code with
  observed 200 (success) and observed 201 (failure, expected 200).
\<close>

theorem testEndpoint_success_classification_witness:
  "(\<exists>result. testEndpoint (answering \<lparr> resp_status = 201, resp_data = JNull \<rparr> rejecting)
        (plain_endpoint POST ''/users'' [] [plain_response 201, plain_response 400])
        plain_config () = (Inr result, ())
      \<and> t_success result \<and> t_error result = None)
   \<and> (\<exists>result. testEndpoint (answering \<lparr> resp_status = 200, resp_data = JNull \<rparr> rejecting)
        (plain_endpoint POST ''/users'' [] [plain_response 201, plain_response 400])
        plain_config () = (Inr result, ())
      \<and> \<not> t_success result \<and> t_error result = Some ''Expected status 201, got 200'')
   \<and> (\<exists>result. testEndpoint (answering \<lparr> resp_status = 200, resp_data = JNull \<rparr> rejecting)
        (plain_endpoint GET ''/users'' [] [plain_response 404])
        plain_config () = (Inr result, ())
      \<and> t_success result \<and> t_error result = None)
   \<and> (\<exists>result. testEndpoint (answering \<lparr> resp_status = 201, resp_data = JNull \<rparr> rejecting)
        (plain_endpoint GET ''/users'' [] [plain_response 404])
        plain_config () = (Inr result, ())
      \<and> \<not> t_success result \<and> t_error result = Some ''Expected status 200, got 201'')"
proof -
  let ?created = "plain_endpoint POST ''/users'' [] [plain_response 201, plain_response 400]"
  let ?plain = "plain_endpoint GET ''/users'' [] [plain_response 404]"
  let ?r200 = "\<lparr> resp_status = 200, resp_data = JNull \<rparr>"
  let ?r201 = "\<lparr> resp_status = 201, resp_data = JNull \<rparr>"
  have b1: "buildRequestBody ?created plain_config = Inr JNull"
    by (simp add: buildRequestBody_def plain_endpoint_def)
  have b2: "buildRequestBody ?plain plain_config = Inr JNull"
    by (simp add: buildRequestBody_def plain_endpoint_def)
  have a: "\<And>r request. axios (answering r rejecting) request () = (Inr (r, 12), ())"
    by (simp add: answering_def)
  have d1: "declared_2xx ?created = [201]"
    by (simp add: declared_2xx_def plain_endpoint_def plain_response_def)
  have d2: "declared_2xx ?plain = []"
    by (simp add: declared_2xx_def plain_endpoint_def plain_response_def)
  have s200: "show_int 200 = ''200''" by code_simp
  have s201: "show_int 201 = ''201''" by code_simp
  have 1: "\<exists>result. testEndpoint (answering ?r201 rejecting) ?created plain_config ()
              = (Inr result, ()) \<and> t_success result \<and> t_error result = None"
    using testEndpoint_success_classification [OF b1 a [of ?r201]] by (auto simp: d1)
  have 2: "\<exists>result. testEndpoint (answering ?r200 rejecting) ?created plain_config ()
              = (Inr result, ()) \<and> \<not> t_success result
              \<and> t_error result = Some ''Expected status 201, got 200''"
    using testEndpoint_success_classification [OF b1 a [of ?r200]] by (auto simp: d1 s200 s201)
  have 3: "\<exists>result. testEndpoint (answering ?r200 rejecting) ?plain plain_config ()
              = (Inr result, ()) \<and> t_success result \<and> t_error result = None"
    using testEndpoint_success_classification [OF b2 a [of ?r200]] by (auto simp: d2)
  have 4: "\<exists>result. testEndpoint (answering ?r201 rejecting) ?plain plain_config ()
              = (Inr result, ()) \<and> \<not> t_success result
              \<and> t_error result = Some ''Expected status 200, got 201''"
    using testEndpoint_success_classification [OF b2 a [of ?r201]] by (auto simp: d2 s200 s201)
  from 1 2 3 4 show ?thesis by blast
qed

text \<open>
  The theorem with schema validation enabled, a declared schema for status 200, a compiler
  that rejects every body, and the response 200 with body \<open>null\<close>: the result stays a
  success, although \<open>validateResponseSchema\<close> rejects that body when asked. With the
  truthy body \<open>text\<close> the same run is downgraded to a failure.
\<close>

theorem testApiEndpoints_schema_check_condition_witness:
  "fst (testApiEndpoints (answering \<lparr> resp_status = 200, resp_data = JNull \<rparr> rejecting)
     [plain_endpoint GET ''/items'' []
        [(plain_response 200) \<lparr> r_schema := JObj [(''type'', JStr ''object'')] \<rparr>]]
     (plain_config \<lparr> c_validateSchema := Some True \<rparr>) ())
   = [\<lparr> t_endpoint = plain_endpoint GET ''/items'' []
          [(plain_response 200) \<lparr> r_schema := JObj [(''type'', JStr ''object'')] \<rparr>],
        t_success = True, t_statusCode = Some 200, t_responseTime = Some 12,
        t_error = None, t_responseBody = JNull \<rparr>]
   \<and> validateResponseSchema (answering \<lparr> resp_status = 200, resp_data = JNull \<rparr> rejecting)
       (plain_endpoint GET ''/items'' []
          [(plain_response 200) \<lparr> r_schema := JObj [(''type'', JStr ''object'')] \<rparr>])
       (Some 200) JNull
     = Inr \<lparr> v_endpoint = plain_endpoint GET ''/items'' []
               [(plain_response 200) \<lparr> r_schema := JObj [(''type'', JStr ''object'')] \<rparr>],
             v_valid = False,
             v_errors = Some [JObj [(''message'', JStr ''must be object'')]] \<rparr>
   \<and> fst (testApiEndpoints (answering \<lparr> resp_status = 200, resp_data = JStr ''text'' \<rparr> rejecting)
     [plain_endpoint GET ''/items'' []
        [(plain_response 200) \<lparr> r_schema := JObj [(''type'', JStr ''object'')] \<rparr>]]
     (plain_config \<lparr> c_validateSchema := Some True \<rparr>) ())
   = [\<lparr> t_endpoint = plain_endpoint GET ''/items'' []
          [(plain_response 200) \<lparr> r_schema := JObj [(''type'', JStr ''object'')] \<rparr>],
        t_success = False, t_statusCode = Some 200, t_responseTime = Some 12,
        t_error = Some ''Schema validation failed: [...]'', t_responseBody = JStr ''text'' \<rparr>]"
proof -
  let ?ep = "plain_endpoint GET ''/items'' []
        [(plain_response 200) \<lparr> r_schema := JObj [(''type'', JStr ''object'')] \<rparr>]"
  let ?cfg = "plain_config \<lparr> c_validateSchema := Some True \<rparr>"
  let ?env = "answering \<lparr> resp_status = 200, resp_data = JNull \<rparr> rejecting"
  let ?env' = "answering \<lparr> resp_status = 200, resp_data = JStr ''text'' \<rparr> rejecting"
  let ?result = "\<lparr> t_endpoint = ?ep, t_success = True, t_statusCode = Some 200,
        t_responseTime = Some 12, t_error = None, t_responseBody = JNull \<rparr>"
  have te: "testEndpoint ?env ?ep ?cfg () = (Inr ?result, ())"
    by (simp add: testEndpoint_def buildRequestBody_def responseResult_def answering_def
        plain_endpoint_def plain_response_def)
  have skipped: "c_validateSchema ?cfg \<noteq> Some True \<or> \<not> t_success ?result
                \<or> \<not> truthy (t_responseBody ?result)"
    by simp
  have 1: "fst (testApiEndpoints ?env [?ep] ?cfg ()) = [?result]"
    using testApiEndpoints_schema_check_condition [OF te skipped, of "[]"]
    by (simp add: testApiEndpoints_def)
  have 2: "validateResponseSchema ?env ?ep (Some 200) JNull
     = Inr \<lparr> v_endpoint = ?ep, v_valid = False,
             v_errors = Some [JObj [(''message'', JStr ''must be object'')]] \<rparr>"
    by (simp add: validateResponseSchema_def and_then_def answering_def rejecting_def
        plain_endpoint_def plain_response_def)
  have 3: "fst (testApiEndpoints ?env' [?ep] ?cfg ())
     = [\<lparr> t_endpoint = ?ep, t_success = False, t_statusCode = Some 200,
          t_responseTime = Some 12, t_error = Some ''Schema validation failed: [...]'',
          t_responseBody = JStr ''text'' \<rparr>]"
    by (simp add: testApiEndpoints_def testEndpoint_def buildRequestBody_def responseResult_def
        validateResponseSchema_def and_then_def answering_def rejecting_def
        plain_endpoint_def plain_response_def plain_config_def)
  from 1 2 3 show ?thesis by blast
qed

end
